theory Spec2Isabelle
  imports Main "HOL-Library.AList"
begin

section \<open>Decoded JSON values\<close>

text \<open>
  The value \<^verbatim>\<open>JSON.parse\<close> returns. A number is kept as its decimal rendering
  (what \<^verbatim>\<open>String(n)\<close> gives): the handlers only test a number for truth and print it,
  and both are functions of that rendering. An object is the list of its own properties
  in enumeration order; the keys of a decoded object are pairwise distinct.
  A JavaScript value that may be \<^verbatim>\<open>undefined\<close> is a \<open>json option\<close>, with
  \<open>None\<close> for \<^verbatim>\<open>undefined\<close>.
\<close>

datatype json =
    JNull
  | JBool bool
  | JNum string
  | JStr string
  | JArr "json list"
  | JObj "(string \<times> json) list"

datatype js_error = SyntaxError | TypeError

text \<open>Property read \<^verbatim>\<open>v.k\<close>: throws on \<^verbatim>\<open>null\<close> and \<^verbatim>\<open>undefined\<close>, finds an own
  property of an object, and is \<^verbatim>\<open>undefined\<close> on every other value (none of the names
  the handlers read is inherited from a prototype).\<close>

fun member :: "json option \<Rightarrow> string \<Rightarrow> js_error + json option" where
  "member None k = Inl TypeError"
| "member (Some JNull) k = Inl TypeError"
| "member (Some (JObj kvs)) k = Inr (map_of kvs k)"
| "member (Some v) k = Inr None"

text \<open>Truthiness, as \<^verbatim>\<open>&&\<close> and \<^verbatim>\<open>if\<close> test it. A decoded number is never NaN, and both
  zeros render as \<^verbatim>\<open>0\<close>.\<close>

fun truthy :: "json option \<Rightarrow> bool" where
  "truthy None = False"
| "truthy (Some JNull) = False"
| "truthy (Some (JBool b)) = b"
| "truthy (Some (JNum n)) = (n \<noteq> ''0'')"
| "truthy (Some (JStr s)) = (s \<noteq> [])"
| "truthy (Some (JArr xs)) = True"
| "truthy (Some (JObj kvs)) = True"

text \<open>String conversion, as a template literal applies it. An array joins its elements
  with commas, \<^verbatim>\<open>null\<close> elements printing as nothing. A plain object prints as
  \<^verbatim>\<open>[object Object]\<close> through the inherited \<^verbatim>\<open>toString\<close>; an own property of that name
  (never callable in decoded JSON) shadows it, and the conversion throws a TypeError,
  here \<open>None\<close>.\<close>

fun join_strs :: "string option list \<Rightarrow> string option" where
  "join_strs [] = Some []"
| "join_strs [x] = x"
| "join_strs (x # y # ys) =
     (case x of None \<Rightarrow> None
      | Some s \<Rightarrow> (case join_strs (y # ys) of None \<Rightarrow> None
                   | Some r \<Rightarrow> Some (s @ '','' @ r)))"

fun ToString :: "json \<Rightarrow> string option" where
  "ToString JNull = Some ''null''"
| "ToString (JBool b) = Some (if b then ''true'' else ''false'')"
| "ToString (JNum n) = Some n"
| "ToString (JStr s) = Some s"
| "ToString (JArr xs) =
     join_strs (map (\<lambda>x. if x = JNull then Some [] else ToString x) xs)"
| "ToString (JObj kvs) =
     (if ''toString'' \<in> fst ` set kvs then None else Some ''[object Object]'')"

fun template :: "json option \<Rightarrow> string option" where
  "template None = Some ''undefined''"
| "template (Some v) = ToString v"

subsection \<open>Pretty printing: \<^verbatim>\<open>JSON.stringify(v, null, 2)\<close>\<close>

definition hex_digit :: "nat \<Rightarrow> char" where
  "hex_digit n = ''0123456789abcdef'' ! (n mod 16)"

definition quote_char :: "char \<Rightarrow> string" where
  "quote_char c =
     (if c = CHR 0x22 then [CHR 0x5C, CHR 0x22]
      else if c = CHR 0x5C then [CHR 0x5C, CHR 0x5C]
      else if c = CHR 0x08 then [CHR 0x5C, CHR ''b'']
      else if c = CHR 0x0C then [CHR 0x5C, CHR ''f'']
      else if c = CHR 0x0A then [CHR 0x5C, CHR ''n'']
      else if c = CHR 0x0D then [CHR 0x5C, CHR ''r'']
      else if c = CHR 0x09 then [CHR 0x5C, CHR ''t'']
      else if (of_char c :: nat) < 32
        then [CHR 0x5C, CHR ''u'', CHR ''0'', CHR ''0'',
              hex_digit (of_char c div 16), hex_digit (of_char c)]
      else [c])"

definition quote :: "string \<Rightarrow> string" where
  "quote s = [CHR 0x22] @ concat (map quote_char s) @ [CHR 0x22]"

fun join_with :: "string \<Rightarrow> string list \<Rightarrow> string" where
  "join_with sep [] = []"
| "join_with sep [x] = x"
| "join_with sep (x # y # ys) = x @ sep @ join_with sep (y # ys)"

definition wrap :: "string \<Rightarrow> string \<Rightarrow> string \<Rightarrow> string list \<Rightarrow> string" where
  "wrap l r indent parts =
     (if parts = [] then l @ r
      else l @ [CHR 0x0A] @ indent @ ''  ''
             @ join_with ('','' @ [CHR 0x0A] @ indent @ ''  '') parts
             @ [CHR 0x0A] @ indent @ r)"

fun serialize :: "string \<Rightarrow> json \<Rightarrow> string" where
  "serialize indent JNull = ''null''"
| "serialize indent (JBool b) = (if b then ''true'' else ''false'')"
| "serialize indent (JNum n) =
     (if n \<in> {''Infinity'', ''-Infinity'', ''NaN''} then ''null'' else n)"
| "serialize indent (JStr s) = quote s"
| "serialize indent (JArr xs) =
     wrap ''['' '']'' indent (map (serialize (indent @ ''  '')) xs)"
| "serialize indent (JObj kvs) =
     wrap ''{'' ''}'' indent
       (map (\<lambda>kv. quote (fst kv) @ '': '' @ serialize (indent @ ''  '') (snd kv)) kvs)"

definition stringify :: "json \<Rightarrow> string" where
  "stringify v = serialize [] v"

section \<open>The page\<close>

text \<open>
  The part of the browser the scripts touch. \<open>body\<close> lists the elements attached to
  the document in document order (\<^verbatim>\<open>document.body.appendChild\<close> adds at the end);
  the elements the scripts look up or create are taken not to be nested in one another.
  \<open>ident\<close> is the identity of the element object, which a JavaScript variable or a
  timer callback holds; \<open>fresh\<close> is the identity the next \<^verbatim>\<open>createElement\<close> gives.
  A pending \<^verbatim>\<open>setTimeout\<close> callback is the time it is due at and the element it removes
  (both scripts schedule nothing else). \<open>sockets\<close> lists the URLs of the WebSocket
  objects constructed so far. Times are in milliseconds.
\<close>

record element =
  ident :: nat
  elem_id :: string
  textContent :: string
  style :: "(string \<times> string) list"

record page =
  body :: "element list"
  timers :: "(nat \<times> nat) list"
  clock :: nat
  fresh :: nat
  sockets :: "string list"

record location =
  protocol :: string
  host :: string

definition getElementById :: "page \<Rightarrow> string \<Rightarrow> element option" where
  "getElementById st i = find (\<lambda>e. elem_id e = i) (body st)"

definition set_textContent :: "nat \<Rightarrow> string \<Rightarrow> page \<Rightarrow> page" where
  "set_textContent n txt st =
     st\<lparr>body := map (\<lambda>e. if ident e = n then e\<lparr>textContent := txt\<rparr> else e) (body st)\<rparr>"

definition appendChild :: "element \<Rightarrow> page \<Rightarrow> page" where
  "appendChild e st = st\<lparr>body := body st @ [e]\<rparr>"

definition remove :: "nat \<Rightarrow> page \<Rightarrow> page" where
  "remove n st = st\<lparr>body := filter (\<lambda>e. ident e \<noteq> n) (body st)\<rparr>"

text \<open>\<^verbatim>\<open>setTimeout(() => el.remove(), d)\<close> for the element \<open>n\<close>.\<close>

definition setTimeout :: "nat \<Rightarrow> nat \<Rightarrow> page \<Rightarrow> page" where
  "setTimeout n d st = st\<lparr>timers := timers st @ [(clock st + d, n)]\<rparr>"

text \<open>Time passes: the clock moves on by \<open>d\<close> and every callback due by then runs.\<close>

definition advance :: "nat \<Rightarrow> page \<Rightarrow> page" where
  "advance d st =
     (let t = clock st + d;
          due = filter (\<lambda>(w, n). w \<le> t) (timers st)
      in (fold (\<lambda>(w, n). remove n) due st)
           \<lparr>timers := filter (\<lambda>(w, n). \<not> w \<le> t) (timers st), clock := t\<rparr>)"

section \<open>The functions shared by both scripts\<close>

text \<open>\<^verbatim>\<open>setStatus\<close> and \<^verbatim>\<open>showToast\<close> are the same text in \<^verbatim>\<open>dashboard.js\<close> and
  \<^verbatim>\<open>live_monitoring.js\<close>.\<close>

definition setStatus :: "string \<Rightarrow> bool \<Rightarrow> page \<Rightarrow> page" where
  "setStatus msg isError st =
     (case getElementById st ''ws-status'' of
        Some stat \<Rightarrow> setTimeout (ident stat) 3500 (set_textContent (ident stat) msg st)
      | None \<Rightarrow>
          (let stat = \<lparr>ident = fresh st, elem_id = ''ws-status'', textContent = [],
                       style = [(''position'', ''fixed''), (''top'', ''8px''),
                                (''right'', ''8px''), (''zIndex'', ''9999''),
                                (''padding'', ''8px 18px''), (''borderRadius'', ''5px''),
                                (''background'', if isError then ''#c92a2a'' else ''#2776ea''),
                                (''color'', ''#fff''), (''fontWeight'', ''600''),
                                (''boxShadow'', ''0 2px 8px rgba(0,0,0,0.12)'')]\<rparr>
           in setTimeout (fresh st) 3500
                (set_textContent (fresh st) msg
                   (appendChild stat (st\<lparr>fresh := Suc (fresh st)\<rparr>)))))"

definition colors :: "(string \<times> string) list" where
  "colors = [(''info'', ''#2563eb''), (''success'', ''#22c55e''),
             (''danger'', ''#dc2626''), (''warning'', ''#fbbf24'')]"

text \<open>\<^verbatim>\<open>colors[level] || colors.info\<close>, for a level that is not the name of a property
  every object inherits (the scripts pass \<^verbatim>\<open>danger\<close> and \<^verbatim>\<open>warning\<close> only).\<close>

definition toast_bg :: "string \<Rightarrow> string" where
  "toast_bg level =
     (case map_of colors level of Some c \<Rightarrow> c
      | None \<Rightarrow> (case map_of colors ''info'' of Some c \<Rightarrow> c | None \<Rightarrow> []))"

definition toast_element :: "nat \<Rightarrow> string \<Rightarrow> string \<Rightarrow> element" where
  "toast_element n message level =
     \<lparr>ident = n, elem_id = [], textContent = message,
      style = [(''position'', ''fixed''), (''bottom'', ''20px''), (''right'', ''20px''),
               (''padding'', ''16px 30px''), (''background'', toast_bg level),
               (''color'', ''#fff''), (''borderRadius'', ''7px''),
               (''boxShadow'', ''0 2px 14px rgba(30,40,100,.13)''),
               (''fontWeight'', ''500''), (''fontSize'', ''1.05em''),
               (''letterSpacing'', ''0.01em''), (''zIndex'', ''99999'')]\<rparr>"

definition showToast :: "string \<Rightarrow> string \<Rightarrow> page \<Rightarrow> page" where
  "showToast message level st =
     setTimeout (fresh st) 5500
       (appendChild (toast_element (fresh st) message level)
          (st\<lparr>fresh := Suc (fresh st)\<rparr>))"

text \<open>The inner \<^verbatim>\<open>if (...threat_level === "CRITICAL") ... else if (... === "HIGH") ...\<close>
  of both message handlers, \<open>d\<close> being \<^verbatim>\<open>data.data\<close> (\<^verbatim>\<open>alert.data\<close>). The first
  component of the result is the exception the handler ends with, if any.\<close>

definition threat_toast :: "json option \<Rightarrow> page \<Rightarrow> js_error option \<times> page" where
  "threat_toast d st =
     (case member d ''threat_level'' of
        Inl e \<Rightarrow> (Some e, st)
      | Inr level \<Rightarrow>
          if level = Some (JStr ''CRITICAL'') then
            (case member d ''location'' of
               Inl e \<Rightarrow> (Some e, st)
             | Inr loc \<Rightarrow>
                 (case template loc of
                    None \<Rightarrow> (Some TypeError, st)
                  | Some s \<Rightarrow> (None, showToast (''CRITICAL THREAT: '' @ s) ''danger'' st)))
          else if level = Some (JStr ''HIGH'') then
            (case member d ''location'' of
               Inl e \<Rightarrow> (Some e, st)
             | Inr loc \<Rightarrow>
                 (case template loc of
                    None \<Rightarrow> (Some TypeError, st)
                  | Some s \<Rightarrow> (None, showToast (''HIGH THREAT: '' @ s) ''warning'' st)))
          else (None, st))"

section \<open>dashboard.js\<close>

text \<open>Line 1: the URL the socket is constructed with. The protocol of the page is not
  read. The handlers follow.\<close>

definition dashboard_url :: "location \<Rightarrow> string" where
  "dashboard_url loc = ''ws://'' @ host loc @ ''/ws''"

definition dashboard_onopen :: "page \<Rightarrow> page" where
  "dashboard_onopen st = setStatus ''Connected to live updates'' False st"

definition dashboard_onmessage ::
  "(string \<Rightarrow> json option) \<Rightarrow> string \<Rightarrow> page \<Rightarrow> js_error option \<times> page" where
  "dashboard_onmessage parse payload st =
     (case parse payload of
        None \<Rightarrow> (Some SyntaxError, st)
      | Some data \<Rightarrow>
          (let st1 = (case getElementById st ''live-data'' of
                        None \<Rightarrow> st
                      | Some liveArea \<Rightarrow>
                          set_textContent (ident liveArea) (stringify data) st)
           in case getElementById st1 ''alerts-area'' of
                None \<Rightarrow> (None, st1)
              | Some alertArea \<Rightarrow>
                  (case member (Some data) ''type'' of
                     Inl e \<Rightarrow> (Some e, st1)
                   | Inr ty \<Rightarrow>
                       if ty \<noteq> Some (JStr ''instant_threat'') then (None, st1)
                       else
                         (case member (Some data) ''data'' of
                            Inl e \<Rightarrow> (Some e, st1)
                          | Inr None \<Rightarrow> (None, st1)
                          | Inr (Some d) \<Rightarrow>
                              if \<not> truthy (Some d) then (None, st1)
                              else threat_toast (Some d)
                                     (set_textContent (ident alertArea) (stringify d) st1)))))"

definition dashboard_onerror :: "page \<Rightarrow> page" where
  "dashboard_onerror st = setStatus ''WebSocket error occurred'' True st"

definition dashboard_onclose :: "page \<Rightarrow> page" where
  "dashboard_onclose st =
     (let st1 = setStatus ''WebSocket disconnected'' True st;
          st2 = (case getElementById st1 ''live-data'' of
                   None \<Rightarrow> st1
                 | Some liveArea \<Rightarrow>
                     set_textContent (ident liveArea) ''WebSocket disconnected'' st1)
      in case getElementById st2 ''alerts-area'' of
           None \<Rightarrow> st2
         | Some alertArea \<Rightarrow>
             set_textContent (ident alertArea) ''WebSocket disconnected'' st2)"

section \<open>live\_monitoring.js\<close>

text \<open>Line 1 is the same as on the dashboard. The message handler looks \<^verbatim>\<open>alerts-area\<close>
  up before it decodes the frame, and tests \<^verbatim>\<open>threat_level\<close> for truth before it compares
  it.\<close>

definition live_url :: "location \<Rightarrow> string" where
  "live_url loc = ''ws://'' @ host loc @ ''/ws''"

definition live_onopen :: "page \<Rightarrow> page" where
  "live_onopen st = setStatus ''Connected to live alerts'' False st"

definition live_onmessage ::
  "(string \<Rightarrow> json option) \<Rightarrow> string \<Rightarrow> page \<Rightarrow> js_error option \<times> page" where
  "live_onmessage parse payload st =
     (let alertArea = getElementById st ''alerts-area''
      in case parse payload of
           None \<Rightarrow> (Some SyntaxError, st)
         | Some alert \<Rightarrow>
             (let st1 = (case alertArea of
                           None \<Rightarrow> st
                         | Some a \<Rightarrow> set_textContent (ident a) (stringify alert) st)
              in case member (Some alert) ''type'' of
                   Inl e \<Rightarrow> (Some e, st1)
                 | Inr ty \<Rightarrow>
                     if ty \<noteq> Some (JStr ''instant_threat'') then (None, st1)
                     else
                       (case member (Some alert) ''data'' of
                          Inl e \<Rightarrow> (Some e, st1)
                        | Inr d \<Rightarrow>
                            if \<not> truthy d then (None, st1)
                            else
                              (case member d ''threat_level'' of
                                 Inl e \<Rightarrow> (Some e, st1)
                               | Inr level \<Rightarrow>
                                   if \<not> truthy level then (None, st1)
                                   else threat_toast d st1))))"

definition live_onerror :: "page \<Rightarrow> page" where
  "live_onerror st = setStatus ''WebSocket error occurred'' True st"

definition live_onclose :: "page \<Rightarrow> page" where
  "live_onclose st =
     (let st1 = setStatus ''WebSocket disconnected'' True st
      in case getElementById st1 ''alerts-area'' of
           None \<Rightarrow> st1
         | Some alertArea \<Rightarrow>
             set_textContent (ident alertArea) ''WebSocket disconnected'' st1)"

section \<open>Running a script\<close>

text \<open>Loading a script constructs its WebSocket; after that the browser delivers events
  one at a time, each handler running to its end. An exception that leaves a handler is
  reported by the browser and the next event is delivered as usual, so a run keeps the
  page the handler left.\<close>

datatype script = Dashboard | LiveMonitoring

datatype event = Open | Message string | Failure | Close | Elapse nat

definition load :: "script \<Rightarrow> location \<Rightarrow> page \<Rightarrow> page" where
  "load sc loc st =
     st\<lparr>sockets := sockets st @
          [case sc of Dashboard \<Rightarrow> dashboard_url loc | LiveMonitoring \<Rightarrow> live_url loc]\<rparr>"

definition onmessage ::
  "script \<Rightarrow> (string \<Rightarrow> json option) \<Rightarrow> string \<Rightarrow> page \<Rightarrow> js_error option \<times> page" where
  "onmessage sc parse payload st =
     (case sc of Dashboard \<Rightarrow> dashboard_onmessage parse payload st
      | LiveMonitoring \<Rightarrow> live_onmessage parse payload st)"

fun step :: "script \<Rightarrow> (string \<Rightarrow> json option) \<Rightarrow> event \<Rightarrow> page \<Rightarrow> page" where
  "step Dashboard parse Open st = dashboard_onopen st"
| "step LiveMonitoring parse Open st = live_onopen st"
| "step sc parse (Message payload) st = snd (onmessage sc parse payload st)"
| "step Dashboard parse Failure st = dashboard_onerror st"
| "step LiveMonitoring parse Failure st = live_onerror st"
| "step Dashboard parse Close st = dashboard_onclose st"
| "step LiveMonitoring parse Close st = live_onclose st"
| "step sc parse (Elapse d) st = advance d st"

definition run :: "script \<Rightarrow> (string \<Rightarrow> json option) \<Rightarrow> event list \<Rightarrow> page \<Rightarrow> page" where
  "run sc parse evs st = fold (step sc parse) evs st"

section \<open>Vocabulary of the properties\<close>

text \<open>The idiom \<^verbatim>\<open>const el = document.getElementById(i); if (el) el.textContent = txt\<close>.\<close>

definition write_text :: "string \<Rightarrow> string \<Rightarrow> page \<Rightarrow> page" where
  "write_text i txt st =
     (case getElementById st i of
        None \<Rightarrow> st
      | Some el \<Rightarrow> set_textContent (ident el) txt st)"

text \<open>A page is well formed when its attached elements are distinct objects, and every
  element and every element a timer holds was created before now.\<close>

definition wf_page :: "page \<Rightarrow> bool" where
  "wf_page st \<longleftrightarrow>
     distinct (map ident (body st))
     \<and> list_all (\<lambda>e. ident e < fresh st) (body st)
     \<and> list_all (\<lambda>(w, n). n < fresh st) (timers st)"

text \<open>A document as it is loaded: elements given by their id and text, no timer pending,
  no socket yet.\<close>

definition page_of :: "(string \<times> string) list \<Rightarrow> page" where
  "page_of els =
     \<lparr>body = map (\<lambda>(n, i, t). \<lparr>ident = n, elem_id = i, textContent = t, style = []\<rparr>)
               (enumerate 0 els),
      timers = [], clock = 0, fresh = length els, sockets = []\<rparr>"

text \<open>The classification the properties speak of: the message has type
  \<^verbatim>\<open>instant_threat\<close>, its \<^verbatim>\<open>data\<close> is present and \<^verbatim>\<open>data.threat_level\<close> is
  \<^verbatim>\<open>CRITICAL\<close> or \<^verbatim>\<open>HIGH\<close>. Only an object has a \<^verbatim>\<open>threat_level\<close> that is a string, so
  \<^verbatim>\<open>data\<close> is one. The result is that level with \<^verbatim>\<open>data.location\<close>, which may be
  \<^verbatim>\<open>undefined\<close>.\<close>

definition threat_of :: "json \<Rightarrow> (string \<times> json option) option" where
  "threat_of M =
     (case M of
        JObj kvs \<Rightarrow>
          (if map_of kvs ''type'' = Some (JStr ''instant_threat'') then
             (case map_of kvs ''data'' of
                Some (JObj dkvs) \<Rightarrow>
                  (case map_of dkvs ''threat_level'' of
                     Some (JStr lvl) \<Rightarrow>
                       if lvl = ''CRITICAL'' \<or> lvl = ''HIGH''
                       then Some (lvl, map_of dkvs ''location'') else None
                   | _ \<Rightarrow> None)
              | _ \<Rightarrow> None)
           else None)
      | _ \<Rightarrow> None)"

text \<open>The severity the handlers pass to \<^verbatim>\<open>showToast\<close> for each of the two levels.\<close>

definition severity :: "string \<Rightarrow> string" where
  "severity lvl = (if lvl = ''CRITICAL'' then ''danger'' else ''warning'')"

text \<open>The surface that mirrors the whole message: \<^verbatim>\<open>live-data\<close> on the dashboard,
  \<^verbatim>\<open>alerts-area\<close> on the live monitoring page.\<close>

fun mirror_id :: "script \<Rightarrow> string" where
  "mirror_id Dashboard = ''live-data''"
| "mirror_id LiveMonitoring = ''alerts-area''"

text \<open>The passive display surfaces a script writes to.\<close>

fun surfaces :: "script \<Rightarrow> string list" where
  "surfaces Dashboard = [''live-data'', ''alerts-area'']"
| "surfaces LiveMonitoring = [''alerts-area'']"

text \<open>The elements a handler attached: those after the ones that were there.\<close>

definition new_elements :: "page \<Rightarrow> page \<Rightarrow> element list" where
  "new_elements st st' = drop (length (body st)) (body st')"

text \<open>\<open>st'\<close> is \<open>st\<close> but for the text of elements whose id is in \<open>ids\<close>: nothing
  created, removed, restyled or scheduled.\<close>

definition only_text_of :: "string list \<Rightarrow> page \<Rightarrow> page \<Rightarrow> bool" where
  "only_text_of ids st st' \<longleftrightarrow>
     st' = st\<lparr>body := body st'\<rparr>
     \<and> list_all2 (\<lambda>e e'. e' = e \<or> (elem_id e \<in> set ids \<and> e' = e\<lparr>textContent := textContent e'\<rparr>))
          (body st) (body st')"

text \<open>The number of status banners on the page, and the background colour of an
  element.\<close>

definition banner_count :: "page \<Rightarrow> nat" where
  "banner_count st = length (filter (\<lambda>e. elem_id e = ''ws-status'') (body st))"

definition background :: "element \<Rightarrow> string option" where
  "background e = map_of (style e) ''background''"

text \<open>\<open>st2\<close> is \<open>st\<close> after the writes a message handler makes to its surfaces for the
  message \<open>M\<close>: the mirror update, and on the dashboard possibly a text written to
  \<^verbatim>\<open>alerts-area\<close>.\<close>

definition surf_written :: "script \<Rightarrow> json \<Rightarrow> page \<Rightarrow> page \<Rightarrow> bool" where
  "surf_written sc M st st2 \<longleftrightarrow>
     (case sc of
        LiveMonitoring \<Rightarrow> st2 = write_text ''alerts-area'' (stringify M) st
      | Dashboard \<Rightarrow>
          st2 = write_text ''live-data'' (stringify M) st
          \<or> (\<exists>t. st2 = write_text ''alerts-area'' t (write_text ''live-data'' (stringify M) st)))"

text \<open>Two alerts used as examples.\<close>

definition chennai_alert :: json where
  "chennai_alert =
     JObj [(''type'', JStr ''instant_threat''),
           (''data'', JObj [(''location'', JStr ''Chennai''),
                            (''threat_level'', JStr ''CRITICAL'')])]"

definition goa_alert :: json where
  "goa_alert =
     JObj [(''type'', JStr ''instant_threat''),
           (''data'', JObj [(''location'', JStr ''Goa''),
                            (''threat_level'', JStr ''HIGH'')])]"

text \<open>A threat whose level is neither of the two escalated ones.\<close>

definition low_alert :: json where
  "low_alert =
     JObj [(''type'', JStr ''instant_threat''),
           (''data'', JObj [(''location'', JStr ''Goa''),
                            (''threat_level'', JStr ''LOW'')])]"

text \<open>The text each lifecycle handler passes to \<^verbatim>\<open>setStatus\<close>.\<close>

fun status_text :: "script \<Rightarrow> event \<Rightarrow> string" where
  "status_text Dashboard Open = ''Connected to live updates''"
| "status_text LiveMonitoring Open = ''Connected to live alerts''"
| "status_text sc Failure = ''WebSocket error occurred''"
| "status_text sc Close = ''WebSocket disconnected''"
| "status_text sc ev = []"

text \<open>The element \<^verbatim>\<open>setStatus\<close> writes to on the page \<open>st\<close>: the banner there is, or the
  one it is about to create.\<close>

definition banner_ref :: "page \<Rightarrow> nat" where
  "banner_ref st = (case getElementById st ''ws-status'' of Some b \<Rightarrow> ident b | None \<Rightarrow> fresh st)"

text \<open>The level and the location text of a frame that decodes to an escalated threat
  whose location converts to a string.\<close>

definition escalation :: "(string \<Rightarrow> json option) \<Rightarrow> string \<Rightarrow> (string \<times> string) option" where
  "escalation parse payload =
     (case parse payload of
        None \<Rightarrow> None
      | Some M \<Rightarrow>
          (case threat_of M of
             None \<Rightarrow> None
           | Some (lvl, loc) \<Rightarrow> map_option (Pair lvl) (template loc)))"

text \<open>The toast of such a threat, as the element created with identity \<open>n\<close>.\<close>

definition threat_element :: "nat \<Rightarrow> string \<times> string \<Rightarrow> element" where
  "threat_element n t = toast_element n (fst t @ '' THREAT: '' @ snd t) (severity (fst t))"

text \<open>The time that passes during a run of events.\<close>

fun elapsed :: "event list \<Rightarrow> nat" where
  "elapsed [] = 0"
| "elapsed (Elapse d # evs) = d + elapsed evs"
| "elapsed (ev # evs) = elapsed evs"

text \<open>The identities of the attached elements, and of those among them that have no id,
  as a toast has.\<close>

definition idents :: "page \<Rightarrow> nat list" where
  "idents st = map ident (body st)"

definition anonymous :: "page \<Rightarrow> nat list" where
  "anonymous st = map ident (filter (\<lambda>e. elem_id e = []) (body st))"

text \<open>The invariant of a toast \<open>n\<close> whose removal is due at \<open>due\<close>: no other timer holds
  it, and it is attached with its timer pending until that time and neither from then on.\<close>

definition toast_inv :: "nat \<Rightarrow> nat \<Rightarrow> page \<Rightarrow> bool" where
  "toast_inv n due st \<longleftrightarrow>
     wf_page st \<and> n < fresh st
     \<and> list_all (\<lambda>(w, m). m = n \<longrightarrow> w = due) (timers st)
     \<and> (if clock st < due
        then n \<in> set (anonymous st) \<and> (due, n) \<in> set (timers st)
        else n \<notin> set (idents st) \<and> list_all (\<lambda>(w, m). m \<noteq> n) (timers st))"

text \<open>What the dashboard shows in \<^verbatim>\<open>alerts-area\<close> for a message: its \<^verbatim>\<open>data\<close>, when the
  type is \<^verbatim>\<open>instant_threat\<close> and the data is truthy.\<close>

definition shown_data :: "json \<Rightarrow> json option" where
  "shown_data M =
     (case M of
        JObj kvs \<Rightarrow>
          (if map_of kvs ''type'' = Some (JStr ''instant_threat'') then
             (case map_of kvs ''data'' of
                Some d \<Rightarrow> if truthy (Some d) then Some d else None
              | None \<Rightarrow> None)
           else None)
      | _ \<Rightarrow> None)"

text \<open>The text updates of the passive display surfaces for a message: the mirror gets
  the pretty-printed message, and on the dashboard \<^verbatim>\<open>alerts-area\<close> gets the pretty-printed
  data it shows, if any. A surface that is not on the page is not written.\<close>

definition surface_writes :: "script \<Rightarrow> json \<Rightarrow> page \<Rightarrow> page" where
  "surface_writes sc M st =
     (case sc of
        LiveMonitoring \<Rightarrow> write_text ''alerts-area'' (stringify M) st
      | Dashboard \<Rightarrow>
          (case shown_data M of
             None \<Rightarrow> write_text ''live-data'' (stringify M) st
           | Some d \<Rightarrow>
               write_text ''alerts-area'' (stringify d)
                 (write_text ''live-data'' (stringify M) st)))"

text \<open>A message that is not a threat.\<close>

definition plain_update :: json where
  "plain_update =
     JObj [(''type'', JStr ''update''), (''data'', JObj [(''location'', JStr ''Goa'')])]"

section \<open>Basic facts\<close>

lemma find_map_text:
  "find (\<lambda>e. elem_id e = i) (map (\<lambda>e. if ident e = n then e\<lparr>textContent := t\<rparr> else e) xs) =
     map_option (\<lambda>e. if ident e = n then e\<lparr>textContent := t\<rparr> else e) (find (\<lambda>e. elem_id e = i) xs)"
  by (induction xs) auto

lemma getElementById_set_textContent:
  "getElementById (set_textContent n t st) i =
     map_option (\<lambda>e. if ident e = n then e\<lparr>textContent := t\<rparr> else e) (getElementById st i)"
  unfolding getElementById_def set_textContent_def
  by (simp add: find_map_text)

lemma getElementById_write_text:
  "getElementById (write_text j t st) i =
     (case getElementById st j of None \<Rightarrow> getElementById st i
      | Some el \<Rightarrow> map_option (\<lambda>e. if ident e = ident el then e\<lparr>textContent := t\<rparr> else e) (getElementById st i))"
  by (simp add: write_text_def getElementById_set_textContent split: option.splits)

lemma getElementById_Some:
  "getElementById st i = Some e \<Longrightarrow> e \<in> set (body st) \<and> elem_id e = i"
  unfolding getElementById_def by (auto simp: find_Some_iff)

lemma wf_ident_inj:
  "wf_page st \<Longrightarrow> e \<in> set (body st) \<Longrightarrow> e' \<in> set (body st) \<Longrightarrow> ident e = ident e' \<Longrightarrow> e = e'"
  unfolding wf_page_def by (auto simp: distinct_map inj_on_def)

lemma set_textContent_fields [simp]:
  "timers (set_textContent n t st) = timers st"
  "clock (set_textContent n t st) = clock st"
  "fresh (set_textContent n t st) = fresh st"
  "sockets (set_textContent n t st) = sockets st"
  "length (body (set_textContent n t st)) = length (body st)"
  "map ident (body (set_textContent n t st)) = map ident (body st)"
  "map elem_id (body (set_textContent n t st)) = map elem_id (body st)"
  "map style (body (set_textContent n t st)) = map style (body st)"
  by (simp_all add: set_textContent_def comp_def if_distrib cong: if_cong)

lemma write_text_fields [simp]:
  "timers (write_text i t st) = timers st"
  "clock (write_text i t st) = clock st"
  "fresh (write_text i t st) = fresh st"
  "sockets (write_text i t st) = sockets st"
  "length (body (write_text i t st)) = length (body st)"
  "map ident (body (write_text i t st)) = map ident (body st)"
  "map elem_id (body (write_text i t st)) = map elem_id (body st)"
  "map style (body (write_text i t st)) = map style (body st)"
  by (simp_all add: write_text_def split: option.splits)

lemma present_write_text [simp]:
  "(getElementById (write_text j t st) i = None) = (getElementById st i = None)"
  by (simp add: getElementById_write_text split: option.splits)

lemma write_text_via:
  "getElementById (write_text j t st) i = Some a \<Longrightarrow>
     set_textContent (ident a) u (write_text j t st) = write_text i u (write_text j t st)"
  by (simp add: write_text_def[of i])

lemma showToast_fields:
  "body (showToast m l st) = body st @ [toast_element (fresh st) m l]"
  "timers (showToast m l st) = timers st @ [(clock st + 5500, fresh st)]"
  "clock (showToast m l st) = clock st"
  "fresh (showToast m l st) = Suc (fresh st)"
  "sockets (showToast m l st) = sockets st"
  by (simp_all add: showToast_def setTimeout_def appendChild_def)

section \<open>The message handlers on a decoded message\<close>

text \<open>The dashboard handler on a decoded message, in terms of write_text.\<close>

lemma dashboard_onmessage_decoded:
  assumes "parse payload = Some M"
  shows "dashboard_onmessage parse payload st =
     (let st1 = write_text ''live-data'' (stringify M) st
      in if getElementById st ''alerts-area'' = None then (None, st1)
         else (case member (Some M) ''type'' of
                 Inl e \<Rightarrow> (Some e, st1)
               | Inr ty \<Rightarrow>
                   if ty \<noteq> Some (JStr ''instant_threat'') then (None, st1)
                   else (case member (Some M) ''data'' of
                           Inl e \<Rightarrow> (Some e, st1)
                         | Inr None \<Rightarrow> (None, st1)
                         | Inr (Some d) \<Rightarrow>
                             if \<not> truthy (Some d) then (None, st1)
                             else threat_toast (Some d)
                                    (write_text ''alerts-area'' (stringify d) st1))))"
proof -
  have st1: "(case getElementById st ''live-data'' of None \<Rightarrow> st
              | Some liveArea \<Rightarrow> set_textContent (ident liveArea) (stringify M) st)
             = write_text ''live-data'' (stringify M) st"
    by (simp add: write_text_def)
  show ?thesis
  proof (cases "getElementById (write_text ''live-data'' (stringify M) st) ''alerts-area''")
    case None
    then have "getElementById st ''alerts-area'' = None" by simp
    then show ?thesis
      unfolding dashboard_onmessage_def assms option.case st1 Let_def None by simp
  next
    case (Some a)
    then have "getElementById st ''alerts-area'' \<noteq> None"
      using present_write_text[of "''live-data''" "stringify M" st "''alerts-area''"] by simp
    then show ?thesis
      unfolding dashboard_onmessage_def assms option.case st1 Let_def Some
      by (auto simp: write_text_via[OF Some] split: option.splits sum.splits)
  qed
qed

lemma live_onmessage_decoded:
  assumes "parse payload = Some M"
  shows "live_onmessage parse payload st =
     (let st1 = write_text ''alerts-area'' (stringify M) st
      in case member (Some M) ''type'' of
           Inl e \<Rightarrow> (Some e, st1)
         | Inr ty \<Rightarrow>
             if ty \<noteq> Some (JStr ''instant_threat'') then (None, st1)
             else (case member (Some M) ''data'' of
                     Inl e \<Rightarrow> (Some e, st1)
                   | Inr d \<Rightarrow>
                       if \<not> truthy d then (None, st1)
                       else (case member d ''threat_level'' of
                               Inl e \<Rightarrow> (Some e, st1)
                             | Inr level \<Rightarrow>
                                 if \<not> truthy level then (None, st1)
                                 else threat_toast d st1)))"
  unfolding live_onmessage_def assms option.case Let_def write_text_def ..

lemma threat_toast_threat:
  assumes "threat_of M = Some (lvl, loc)"
  shows "\<exists>kvs dkvs. M = JObj kvs \<and> map_of kvs ''type'' = Some (JStr ''instant_threat'')
           \<and> map_of kvs ''data'' = Some (JObj dkvs)
           \<and> map_of dkvs ''threat_level'' = Some (JStr lvl)
           \<and> (lvl = ''CRITICAL'' \<or> lvl = ''HIGH'') \<and> loc = map_of dkvs ''location''"
  using assms unfolding threat_of_def
  by (auto split: json.splits option.splits if_splits)

lemma threat_toast_fires:
  assumes "lvl = ''CRITICAL'' \<or> lvl = ''HIGH''"
    and "map_of dkvs ''threat_level'' = Some (JStr lvl)"
  shows "threat_toast (Some (JObj dkvs)) st =
     (case template (map_of dkvs ''location'') of
        None \<Rightarrow> (Some TypeError, st)
      | Some s \<Rightarrow> (None, showToast (lvl @ '' THREAT: '' @ s) (severity lvl) st))"
  using assms unfolding threat_toast_def severity_def
  by (auto split: option.splits)

lemma onmessage_threat:
  assumes "parse payload = Some M" "threat_of M = Some (lvl, loc)"
    and "sc = Dashboard \<longrightarrow> getElementById st ''alerts-area'' \<noteq> None"
  shows "\<exists>d. member (Some M) ''data'' = Inr (Some d) \<and> onmessage sc parse payload st =
     (let st2 = (case sc of
                   Dashboard \<Rightarrow> write_text ''alerts-area'' (stringify d)
                                  (write_text ''live-data'' (stringify M) st)
                 | LiveMonitoring \<Rightarrow> write_text ''alerts-area'' (stringify M) st)
      in case template loc of
           None \<Rightarrow> (Some TypeError, st2)
         | Some s \<Rightarrow> (None, showToast (lvl @ '' THREAT: '' @ s) (severity lvl) st2))"
proof -
  from threat_toast_threat[OF assms(2)] obtain kvs dkvs where
    M: "M = JObj kvs" and ty: "map_of kvs ''type'' = Some (JStr ''instant_threat'')"
    and d: "map_of kvs ''data'' = Some (JObj dkvs)"
    and tl: "map_of dkvs ''threat_level'' = Some (JStr lvl)"
    and lv: "lvl = ''CRITICAL'' \<or> lvl = ''HIGH''" and loc: "loc = map_of dkvs ''location''"
    by blast
  have tr: "lvl \<noteq> []" using lv by auto
  show ?thesis
  proof (cases sc)
    case Dashboard
    with assms(3) show ?thesis
      unfolding onmessage_def
      by (auto simp: dashboard_onmessage_decoded[of parse payload M, OF assms(1)] M ty d
            threat_toast_fires[OF lv tl] loc Let_def)
  next
    case LiveMonitoring
    then show ?thesis
      unfolding onmessage_def
      by (simp add: live_onmessage_decoded[of parse payload M, OF assms(1)] M ty d tl tr
            threat_toast_fires[OF lv tl] loc Let_def)
  qed
qed

lemma threat_toast_shape:
  "snd (threat_toast d st) = st \<or> (\<exists>m l. snd (threat_toast d st) = showToast m l st)"
  unfolding threat_toast_def
  by (auto split: sum.splits option.splits)

lemma onmessage_shape:
  assumes "parse payload = Some M"
  shows "\<exists>st2. surf_written sc M st st2
           \<and> (snd (onmessage sc parse payload st) = st2
                \<or> (\<exists>m l. snd (onmessage sc parse payload st) = showToast m l st2))"
proof (cases sc)
  case Dashboard
  let ?st1 = "write_text ''live-data'' (stringify M) st"
  let ?r = "snd (dashboard_onmessage parse payload st)"
  have "?r = ?st1 \<or> (\<exists>d t. ?r = snd (threat_toast d (write_text ''alerts-area'' t ?st1)))"
    unfolding dashboard_onmessage_decoded[of parse payload M, OF assms] Let_def
    by (simp split: sum.splits option.splits) blast
  then consider "?r = ?st1"
    | d t where "?r = snd (threat_toast d (write_text ''alerts-area'' t ?st1))"
    by blast
  then show ?thesis
  proof cases
    case 1
    then show ?thesis unfolding onmessage_def surf_written_def Dashboard by auto
  next
    case 2
    let ?st2 = "write_text ''alerts-area'' t ?st1"
    have "surf_written sc M st ?st2" unfolding surf_written_def Dashboard by auto
    moreover have "?r = ?st2 \<or> (\<exists>m l. ?r = showToast m l ?st2)"
      using threat_toast_shape[of d ?st2] 2 by simp
    ultimately show ?thesis unfolding onmessage_def Dashboard by auto
  qed
next
  case LiveMonitoring
  let ?st1 = "write_text ''alerts-area'' (stringify M) st"
  let ?r = "snd (live_onmessage parse payload st)"
  have "?r = ?st1 \<or> (\<exists>d. ?r = snd (threat_toast d ?st1))"
    unfolding live_onmessage_decoded[of parse payload M, OF assms] Let_def
    by (simp split: sum.splits option.splits) blast
  then consider "?r = ?st1" | d where "?r = snd (threat_toast d ?st1)"
    by blast
  then show ?thesis
  proof cases
    case 1
    then show ?thesis unfolding onmessage_def surf_written_def LiveMonitoring by auto
  next
    case 2
    have "surf_written sc M st ?st1" unfolding surf_written_def LiveMonitoring by simp
    moreover have "?r = ?st1 \<or> (\<exists>m l. ?r = showToast m l ?st1)"
      using threat_toast_shape[of d ?st1] 2 by simp
    ultimately show ?thesis unfolding onmessage_def LiveMonitoring by auto
  qed
qed

section \<open>One toast for an escalated threat\<close>

lemma new_elements_showToast:
  "length (body st2) = length (body st) \<Longrightarrow>
     new_elements st (showToast m l st2) = [toast_element (fresh st2) m l]"
  by (simp add: new_elements_def showToast_fields)

lemma surf_written_fields:
  assumes "surf_written sc M st st2"
  shows "length (body st2) = length (body st)" "timers st2 = timers st"
    "clock st2 = clock st" "fresh st2 = fresh st" "sockets st2 = sockets st"
    "map ident (body st2) = map ident (body st)"
    "map elem_id (body st2) = map elem_id (body st)"
  using assms unfolding surf_written_def by (auto split: script.splits)

text \<open>
  \<^bold>\<open>C1\<close>, as amended. No message makes a handler attach more than one element. A message of
  type \<^verbatim>\<open>instant_threat\<close> whose \<^verbatim>\<open>data.threat_level\<close> is \<^verbatim>\<open>CRITICAL\<close> (\<^verbatim>\<open>HIGH\<close>) and whose
  \<^verbatim>\<open>data.location\<close> converts to the string \<open>s\<close> makes the live monitoring handler, and
  the dashboard handler when the page has an \<^verbatim>\<open>alerts-area\<close> element, end normally having
  attached exactly one toast, with the text \<^verbatim>\<open>CRITICAL THREAT: s\<close> (\<^verbatim>\<open>HIGH THREAT: s\<close>), the
  severity \<^verbatim>\<open>danger\<close> (\<^verbatim>\<open>warning\<close>) and its colour, and one removal timer for it.
\<close>

theorem threat_emits_one_toast:
  "length (new_elements st (snd (onmessage sc parse payload st))) \<le> 1 \<and>
   (parse payload = Some M \<longrightarrow> threat_of M = Some (lvl, loc) \<longrightarrow> template loc = Some s \<longrightarrow>
    (sc = Dashboard \<longrightarrow> getElementById st ''alerts-area'' \<noteq> None) \<longrightarrow>
      fst (onmessage sc parse payload st) = None
      \<and> new_elements st (snd (onmessage sc parse payload st))
          = [toast_element (fresh st) (lvl @ '' THREAT: '' @ s) (severity lvl)]
      \<and> timers (snd (onmessage sc parse payload st)) = timers st @ [(clock st + 5500, fresh st)]
      \<and> severity lvl = (if lvl = ''CRITICAL'' then ''danger'' else ''warning'')
      \<and> background (toast_element (fresh st) (lvl @ '' THREAT: '' @ s) (severity lvl))
          = Some (if lvl = ''CRITICAL'' then ''#dc2626'' else ''#fbbf24''))"
proof (intro conjI impI)
  show "length (new_elements st (snd (onmessage sc parse payload st))) \<le> 1"
  proof (cases "parse payload")
    case None
    then show ?thesis
      by (cases sc) (simp_all add: onmessage_def dashboard_onmessage_def live_onmessage_def
          new_elements_def)
  next
    case (Some M')
    from onmessage_shape[of parse payload M' sc st, OF Some] obtain st2 where
      w: "surf_written sc M' st st2" and
      r: "snd (onmessage sc parse payload st) = st2
          \<or> (\<exists>m l. snd (onmessage sc parse payload st) = showToast m l st2)"
      by blast
    from r show ?thesis
      using surf_written_fields(1)[OF w]
      by (auto simp: new_elements_def showToast_fields)
  qed
next
  assume p: "parse payload = Some M" and t: "threat_of M = Some (lvl, loc)"
    and s: "template loc = Some s"
    and a: "sc = Dashboard \<longrightarrow> getElementById st ''alerts-area'' \<noteq> None"
  from onmessage_threat[of parse payload M lvl loc sc st, OF p t a] s obtain st2 where
    st2: "surf_written sc M st st2" and
    r: "onmessage sc parse payload st
          = (None, showToast (lvl @ '' THREAT: '' @ s) (severity lvl) st2)"
    unfolding surf_written_def by (cases sc) (auto simp: Let_def)
  show "fst (onmessage sc parse payload st) = None" using r by simp
  show "new_elements st (snd (onmessage sc parse payload st))
          = [toast_element (fresh st) (lvl @ '' THREAT: '' @ s) (severity lvl)]"
    using r surf_written_fields[OF st2] by (simp add: new_elements_showToast)
  show "timers (snd (onmessage sc parse payload st)) = timers st @ [(clock st + 5500, fresh st)]"
    using r surf_written_fields[OF st2] by (simp add: showToast_fields)
  show "severity lvl = (if lvl = ''CRITICAL'' then ''danger'' else ''warning'')"
    by (simp add: severity_def)
  from threat_toast_threat[OF t] have "lvl = ''CRITICAL'' \<or> lvl = ''HIGH''" by blast
  then show "background (toast_element (fresh st) (lvl @ '' THREAT: '' @ s) (severity lvl))
          = Some (if lvl = ''CRITICAL'' then ''#dc2626'' else ''#fbbf24'')"
    by (auto simp: background_def toast_element_def toast_bg_def colors_def severity_def)
qed

lemmas eval_defs =
  onmessage_def dashboard_onmessage_def live_onmessage_def threat_toast_def
  getElementById_def set_textContent_def showToast_def setTimeout_def appendChild_def
  toast_element_def toast_bg_def colors_def page_of_def new_elements_def threat_of_def
  severity_def chennai_alert_def goa_alert_def enumerate_eq_zip Let_def

text \<open>
  C1 as stated fails on the dashboard without an \<^verbatim>\<open>alerts-area\<close> element, where the
  handler returns before the threat test, and in both scripts for a location that is an
  object with an own \<^verbatim>\<open>toString\<close> property, where the template literal throws.
\<close>

theorem threat_emits_one_toast_counterexample:
  "threat_of chennai_alert = Some (''CRITICAL'', Some (JStr ''Chennai''))
   \<and> new_elements (page_of [(''live-data'', ''-'')])
        (snd (onmessage Dashboard [''m'' \<mapsto> chennai_alert] ''m''
                (page_of [(''live-data'', ''-'')]))) = []
   \<and> threat_of (JObj [(''type'', JStr ''instant_threat''),
                        (''data'', JObj [(''location'', JObj [(''toString'', JNum ''1'')]),
                                         (''threat_level'', JStr ''CRITICAL'')])])
        = Some (''CRITICAL'', Some (JObj [(''toString'', JNum ''1'')]))
   \<and> onmessage LiveMonitoring
        [''m'' \<mapsto> JObj [(''type'', JStr ''instant_threat''),
                          (''data'', JObj [(''location'', JObj [(''toString'', JNum ''1'')]),
                                           (''threat_level'', JStr ''CRITICAL'')])]]
        ''m'' (page_of []) = (Some TypeError, page_of [])"
  by (simp add: eval_defs)

text \<open>The hypotheses of C1 hold for the Chennai alert on a dashboard with both surfaces.\<close>

theorem threat_emits_one_toast_witness:
  "[''m'' \<mapsto> chennai_alert] ''m'' = Some chennai_alert
   \<and> threat_of chennai_alert = Some (''CRITICAL'', Some (JStr ''Chennai''))
   \<and> template (Some (JStr ''Chennai'')) = Some ''Chennai''
   \<and> getElementById (page_of [(''live-data'', ''-''), (''alerts-area'', ''-'')]) ''alerts-area''
        \<noteq> None
   \<and> fst (onmessage Dashboard [''m'' \<mapsto> chennai_alert] ''m''
             (page_of [(''live-data'', ''-''), (''alerts-area'', ''-'')])) = None
   \<and> new_elements (page_of [(''live-data'', ''-''), (''alerts-area'', ''-'')])
        (snd (onmessage Dashboard [''m'' \<mapsto> chennai_alert] ''m''
                (page_of [(''live-data'', ''-''), (''alerts-area'', ''-'')])))
        = [toast_element 2 ''CRITICAL THREAT: Chennai'' ''danger'']
   \<and> timers (snd (onmessage Dashboard [''m'' \<mapsto> chennai_alert] ''m''
                (page_of [(''live-data'', ''-''), (''alerts-area'', ''-'')])))
        = [(5500, 2)]"
proof -
  let ?pg = "page_of [(''live-data'', ''-''), (''alerts-area'', ''-'')]"
  have h1: "[''m'' \<mapsto> chennai_alert] ''m'' = Some chennai_alert" by simp
  have h2: "threat_of chennai_alert = Some (''CRITICAL'', Some (JStr ''Chennai''))"
    by (simp add: threat_of_def chennai_alert_def)
  have h3: "template (Some (JStr ''Chennai'')) = Some ''Chennai''" by simp
  have h4: "getElementById ?pg ''alerts-area'' \<noteq> None"
    by (simp add: getElementById_def page_of_def enumerate_eq_zip)
  have f: "fresh ?pg = 2" "timers ?pg = []" "clock ?pg = 0" by (simp_all add: page_of_def)
  show ?thesis
    using threat_emits_one_toast[of ?pg Dashboard "[''m'' \<mapsto> chennai_alert]" "''m''"
        chennai_alert "''CRITICAL''" "Some (JStr ''Chennai'')" "''Chennai''"] h1 h2 h3 h4
    by (simp add: f severity_def)
qed

section \<open>The mirror\<close>

lemma wf_page_set_textContent: "wf_page st \<Longrightarrow> wf_page (set_textContent n t st)"
  unfolding wf_page_def set_textContent_def
  by (auto simp: list_all_iff comp_def if_distrib[of ident] cong: if_cong)

lemma find_snoc:
  "find P (xs @ [y]) = (case find P xs of Some x \<Rightarrow> Some x | None \<Rightarrow> if P y then Some y else None)"
  by (induction xs) auto

lemma wf_page_write_text: "wf_page st \<Longrightarrow> wf_page (write_text i t st)"
  by (simp add: write_text_def wf_page_set_textContent split: option.splits)

lemma wf_distinct_ids:
  assumes "wf_page st" "getElementById st i = Some a" "getElementById st j = Some b" "i \<noteq> j"
  shows "ident a \<noteq> ident b"
  using assms wf_ident_inj[of st a b] getElementById_Some[of st i a] getElementById_Some[of st j b]
  by auto

lemma getElementById_showToast:
  "getElementById st i = Some e \<Longrightarrow> getElementById (showToast m l st) i = Some e"
  by (simp add: getElementById_def showToast_fields find_snoc)

lemma mirror_after_writes:
  assumes wf: "wf_page st" and e: "getElementById st (mirror_id sc) = Some e"
    and w: "surf_written sc M st st2"
  shows "getElementById st2 (mirror_id sc) = Some (e\<lparr>textContent := stringify M\<rparr>)"
proof (cases sc)
  case LiveMonitoring
  with e w show ?thesis
    by (simp add: surf_written_def getElementById_write_text)
next
  case Dashboard
  let ?st1 = "write_text ''live-data'' (stringify M) st"
  have e1: "getElementById ?st1 ''live-data'' = Some (e\<lparr>textContent := stringify M\<rparr>)"
    using e Dashboard by (simp add: getElementById_write_text)
  have "getElementById (write_text ''alerts-area'' t ?st1) ''live-data''
          = Some (e\<lparr>textContent := stringify M\<rparr>)" for t
  proof (cases "getElementById ?st1 ''alerts-area''")
    case None
    then show ?thesis using e1 by (simp add: getElementById_write_text)
  next
    case (Some a)
    have "ident (e\<lparr>textContent := stringify M\<rparr>) \<noteq> ident a"
      using wf_distinct_ids[OF wf_page_write_text[OF wf] e1 Some] by simp
    then show ?thesis using e1 Some by (simp add: getElementById_write_text)
  qed
  with e1 w Dashboard show ?thesis by (auto simp: surf_written_def)
qed

text \<open>
  \<^bold>\<open>C2\<close>. On a well-formed page that has the mirror surface (\<^verbatim>\<open>live-data\<close> on the dashboard,
  \<^verbatim>\<open>alerts-area\<close> on the live monitoring page), after the handler has processed a decoded
  message \<open>M\<close> the mirror is the same element with its content replaced by the pretty-printed
  \<open>M\<close>, whatever \<open>M\<close> is and whether or not the handler went on to show a toast or ended
  with an exception.
\<close>

theorem mirror_shows_message:
  assumes "wf_page st" and "parse payload = Some M"
    and "getElementById st (mirror_id sc) = Some e"
  shows "getElementById (snd (onmessage sc parse payload st)) (mirror_id sc)
           = Some (e\<lparr>textContent := stringify M\<rparr>)"
proof -
  from onmessage_shape[of parse payload M sc st, OF assms(2)] obtain st2 where
    w: "surf_written sc M st st2" and
    r: "snd (onmessage sc parse payload st) = st2
        \<or> (\<exists>m l. snd (onmessage sc parse payload st) = showToast m l st2)"
    by blast
  have "getElementById st2 (mirror_id sc) = Some (e\<lparr>textContent := stringify M\<rparr>)"
    by (rule mirror_after_writes[OF assms(1,3) w])
  with r show ?thesis by (auto simp: getElementById_showToast)
qed

text \<open>The hypotheses of C2 hold for the Goa alert on a dashboard with both surfaces.\<close>

theorem mirror_shows_message_witness:
  "wf_page (page_of [(''live-data'', ''-''), (''alerts-area'', ''-'')])
   \<and> [''m'' \<mapsto> goa_alert] ''m'' = Some goa_alert
   \<and> getElementById (page_of [(''live-data'', ''-''), (''alerts-area'', ''-'')]) ''live-data''
        = Some \<lparr>ident = 0, elem_id = ''live-data'', textContent = ''-'', style = []\<rparr>
   \<and> getElementById
         (snd (onmessage Dashboard [''m'' \<mapsto> goa_alert] ''m''
                 (page_of [(''live-data'', ''-''), (''alerts-area'', ''-'')]))) ''live-data''
        = Some \<lparr>ident = 0, elem_id = ''live-data'', textContent = stringify goa_alert,
                 style = []\<rparr>"
proof -
  let ?pg = "page_of [(''live-data'', ''-''), (''alerts-area'', ''-'')]"
  have h1: "wf_page ?pg" by (simp add: wf_page_def page_of_def enumerate_eq_zip)
  have h2: "[''m'' \<mapsto> goa_alert] ''m'' = Some goa_alert" by simp
  have h3: "getElementById ?pg (mirror_id Dashboard)
              = Some \<lparr>ident = 0, elem_id = ''live-data'', textContent = ''-'', style = []\<rparr>"
    by (simp add: getElementById_def page_of_def enumerate_eq_zip)
  show ?thesis
    using mirror_shows_message[where parse="[''m'' \<mapsto> goa_alert]" and payload="''m''",
        OF h1 h2 h3] h1 h2 h3 by simp
qed

section \<open>Frames that do not decode\<close>

text \<open>
  \<^bold>\<open>C5\<close>. When the payload of a frame does not decode, the handler ends at the decode step
  with the SyntaxError of \<^verbatim>\<open>JSON.parse\<close> and the page is as it was: no surface is written,
  no toast attached, nothing scheduled.
\<close>

theorem undecodable_frame_throws:
  assumes "parse payload = None"
  shows "onmessage sc parse payload st = (Some SyntaxError, st)"
  using assms
  by (cases sc) (simp_all add: onmessage_def dashboard_onmessage_def live_onmessage_def)

text \<open>A frame that is not JSON, for a parser that rejects it.\<close>

theorem undecodable_frame_throws_witness:
  "Map.empty ''not json'' = (None :: json option)
   \<and> onmessage LiveMonitoring Map.empty ''not json'' (page_of [(''alerts-area'', ''-'')])
        = (Some SyntaxError, page_of [(''alerts-area'', ''-'')])"
proof -
  have h: "Map.empty ''not json'' = (None :: json option)" by simp
  show ?thesis
    using undecodable_frame_throws[of Map.empty "''not json''" LiveMonitoring
        "page_of [(''alerts-area'', ''-'')]", OF h] h by blast
qed

section \<open>Messages that are not escalated\<close>

lemma threat_toast_quiet:
  assumes "truthy d"
    and "\<And>dkvs. d = Some (JObj dkvs) \<Longrightarrow>
           map_of dkvs ''threat_level'' \<noteq> Some (JStr ''CRITICAL'')
           \<and> map_of dkvs ''threat_level'' \<noteq> Some (JStr ''HIGH'')"
  shows "threat_toast d st = (None, st)"
proof (cases d)
  case None
  with assms(1) show ?thesis by simp
next
  case (Some v)
  with assms show ?thesis
    unfolding threat_toast_def by (cases v) auto
qed

lemma onmessage_quiet:
  assumes p: "parse payload = Some M" and t: "threat_of M = None"
  shows "\<exists>st2. surf_written sc M st st2 \<and> snd (onmessage sc parse payload st) = st2"
proof -
  have q: "threat_toast d st' = (None, st')"
    if "member (Some M) ''type'' = Inr (Some (JStr ''instant_threat''))"
      and "member (Some M) ''data'' = Inr d" and "truthy d" for d st'
  proof (rule threat_toast_quiet[OF that(3)])
    fix dkvs assume "d = Some (JObj dkvs)"
    with that t show "map_of dkvs ''threat_level'' \<noteq> Some (JStr ''CRITICAL'')
           \<and> map_of dkvs ''threat_level'' \<noteq> Some (JStr ''HIGH'')"
      unfolding threat_of_def by (cases M) (auto split: if_splits)
  qed
  show ?thesis
  proof (cases sc)
    case Dashboard
    show ?thesis
      unfolding Dashboard onmessage_def surf_written_def
        dashboard_onmessage_decoded[of parse payload M, OF p] Let_def
      by (auto split: sum.splits option.splits simp: q)
  next
    case LiveMonitoring
    show ?thesis
      unfolding LiveMonitoring onmessage_def surf_written_def
        live_onmessage_decoded[of parse payload M, OF p] Let_def
      by (auto split: sum.splits option.splits simp: q)
  qed
qed

lemma only_text_of_set_textContent:
  assumes wf: "wf_page st" and el: "getElementById st i = Some el" and i: "i \<in> set ids"
  shows "only_text_of ids st (set_textContent (ident el) t st)"
proof -
  have "x = el" if "x \<in> set (body st)" "ident x = ident el" for x
    using wf_ident_inj[OF wf that(1) _ that(2)] getElementById_Some[OF el] by simp
  then have "\<forall>x \<in> set (body st). ident x = ident el \<longrightarrow> elem_id x \<in> set ids"
    using getElementById_Some[OF el] i by auto
  then show ?thesis
    unfolding only_text_of_def set_textContent_def
    by (auto simp: list_all2_map2 intro!: list.rel_refl_strong)
qed

lemma only_text_of_write_text:
  "wf_page st \<Longrightarrow> i \<in> set ids \<Longrightarrow> only_text_of ids st (write_text i t st)"
  unfolding write_text_def
  by (auto split: option.splits simp: only_text_of_set_textContent)
    (simp add: only_text_of_def list.rel_refl)

lemma only_text_of_trans:
  assumes "only_text_of ids a b" "only_text_of ids b c"
  shows "only_text_of ids a c"
proof -
  let ?P = "\<lambda>e e'. e' = e \<or> (elem_id e \<in> set ids \<and> e' = e\<lparr>textContent := textContent e'\<rparr>)"
  have ab: "b = a\<lparr>body := body b\<rparr>" "list_all2 ?P (body a) (body b)"
    and bc: "c = b\<lparr>body := body c\<rparr>" "list_all2 ?P (body b) (body c)"
    using assms unfolding only_text_of_def by auto
  have step: "?P x z" if "?P x y" "?P y z" for x y z :: element
  proof -
    from that consider "y = x" | "z = y" "y \<noteq> x"
      | "elem_id x \<in> set ids" "y = x\<lparr>textContent := textContent y\<rparr>"
        "z = y\<lparr>textContent := textContent z\<rparr>"
      by auto
    then show ?thesis
    proof cases
      case 1 with that show ?thesis by simp
    next
      case 2 with that show ?thesis by simp
    next
      case 3
      have "z = (x\<lparr>textContent := textContent y\<rparr>)\<lparr>textContent := textContent z\<rparr>"
        using 3(2,3) by simp
      then have "z = x\<lparr>textContent := textContent z\<rparr>" by simp
      with 3(1) show ?thesis by simp
    qed
  qed
  have "list_all2 ?P (body a) (body c)"
    using list_all2_trans[of ?P ?P ?P, OF _ ab(2) bc(2)] step by blast
  moreover have "c = a\<lparr>body := body c\<rparr>"
  proof -
    have "c = (a\<lparr>body := body b\<rparr>)\<lparr>body := body c\<rparr>" using ab(1) bc(1) by simp
    then show ?thesis by simp
  qed
  ultimately show ?thesis unfolding only_text_of_def by simp
qed

lemma surf_written_only_text:
  assumes "wf_page st" "surf_written sc M st st2"
  shows "only_text_of (surfaces sc) st st2"
proof (cases sc)
  case LiveMonitoring
  with assms show ?thesis by (simp add: surf_written_def only_text_of_write_text)
next
  case Dashboard
  let ?st1 = "write_text ''live-data'' (stringify M) st"
  have 1: "only_text_of (surfaces sc) st ?st1"
    using assms(1) Dashboard by (simp add: only_text_of_write_text)
  have 2: "only_text_of (surfaces sc) ?st1 (write_text ''alerts-area'' t ?st1)" for t
    using wf_page_write_text[OF assms(1)] Dashboard by (simp add: only_text_of_write_text)
  from assms(2) Dashboard 1 only_text_of_trans[OF 1 2] show ?thesis
    by (auto simp: surf_written_def)
qed

lemma write_text_absent: "getElementById st i = None \<Longrightarrow> write_text i t st = st"
  by (simp add: write_text_def)

lemma member_truthy: "truthy d \<Longrightarrow> member d k \<noteq> Inl e"
proof (cases d)
  case None
  then show "truthy d \<Longrightarrow> member d k \<noteq> Inl e" by simp
next
  case (Some v)
  then show "truthy d \<Longrightarrow> member d k \<noteq> Inl e" by (cases v) simp_all
qed

lemma onmessage_quiet_exact:
  assumes p: "parse payload = Some M" and t: "threat_of M = None"
  shows "onmessage sc parse payload st =
           (if M = JNull \<and> (sc = Dashboard \<longrightarrow> getElementById st ''alerts-area'' \<noteq> None)
            then Some TypeError else None,
            surface_writes sc M st)"
proof -
  have q: "threat_toast d st' = (None, st')"
    if "member (Some M) ''type'' = Inr (Some (JStr ''instant_threat''))"
      and "member (Some M) ''data'' = Inr d" and "truthy d" for d st'
  proof (rule threat_toast_quiet[OF that(3)])
    fix dkvs assume "d = Some (JObj dkvs)"
    with that t show "map_of dkvs ''threat_level'' \<noteq> Some (JStr ''CRITICAL'')
           \<and> map_of dkvs ''threat_level'' \<noteq> Some (JStr ''HIGH'')"
      unfolding threat_of_def by (cases M) (auto split: if_splits)
  qed
  show ?thesis
  proof (cases sc)
    case LiveMonitoring
    show ?thesis
      unfolding LiveMonitoring onmessage_def surface_writes_def
        live_onmessage_decoded[of parse payload M, OF p] Let_def
      by (cases M) (auto split: sum.splits option.splits simp: q member_truthy)
  next
    case Dashboard
    let ?st1 = "write_text ''live-data'' (stringify M) st"
    show ?thesis
    proof (cases "getElementById st ''alerts-area''")
      case None
      then have "write_text ''alerts-area'' u ?st1 = ?st1" for u
        by (simp add: write_text_absent)
      with None show ?thesis
        unfolding Dashboard onmessage_def surface_writes_def
          dashboard_onmessage_decoded[of parse payload M, OF p] Let_def
        by (simp split: option.splits)
    next
      case (Some a)
      then show ?thesis
        unfolding Dashboard onmessage_def surface_writes_def shown_data_def
          dashboard_onmessage_decoded[of parse payload M, OF p] Let_def
        by (cases M) (auto split: sum.splits option.splits simp: q)
    qed
  qed
qed

lemma surface_writes_written: "surf_written sc M st (surface_writes sc M st)"
  unfolding surf_written_def surface_writes_def
  by (cases sc) (auto split: option.splits)

text \<open>
  \<^bold>\<open>C3\<close>, as amended. Let a decoded message be not of type \<^verbatim>\<open>instant_threat\<close>, or have no
  \<^verbatim>\<open>data\<close> or no \<^verbatim>\<open>data.threat_level\<close>, or a level that is any value but exactly
  \<^verbatim>\<open>CRITICAL\<close> or \<^verbatim>\<open>HIGH\<close>. Then the page the handler leaves is exactly the page before
  with the text updates of the passive display surfaces: the mirror gets the pretty-printed
  message, and on the dashboard \<^verbatim>\<open>alerts-area\<close> gets the pretty-printed \<^verbatim>\<open>data\<close> when the type
  is \<^verbatim>\<open>instant_threat\<close> and the data is truthy, and is left as it was otherwise. No element
  is attached and nothing is scheduled; on a well-formed page nothing but the text of those
  surfaces differs. The handler ends normally, but for the message \<^verbatim>\<open>null\<close>: there it ends
  with a TypeError when it reads the type, after the mirror update, which the dashboard
  does only on a page that has \<^verbatim>\<open>alerts-area\<close>.
\<close>

theorem quiet_message_writes_surfaces_only:
  assumes "parse payload = Some M" and "threat_of M = None"
  shows "onmessage sc parse payload st =
           (if M = JNull \<and> (sc = Dashboard \<longrightarrow> getElementById st ''alerts-area'' \<noteq> None)
            then Some TypeError else None,
            surface_writes sc M st)
         \<and> new_elements st (snd (onmessage sc parse payload st)) = []
         \<and> timers (snd (onmessage sc parse payload st)) = timers st
         \<and> (wf_page st \<longrightarrow>
              only_text_of (surfaces sc) st (snd (onmessage sc parse payload st)))"
proof -
  note r = onmessage_quiet_exact[of parse payload M sc st, OF assms]
  note w = surface_writes_written[of sc M st]
  have "new_elements st (surface_writes sc M st) = []"
    using surf_written_fields(1)[OF w] by (simp add: new_elements_def)
  moreover have "timers (surface_writes sc M st) = timers st"
    by (rule surf_written_fields(2)[OF w])
  moreover have "wf_page st \<longrightarrow> only_text_of (surfaces sc) st (surface_writes sc M st)"
    using surf_written_only_text[OF _ w] by blast
  ultimately show ?thesis unfolding r by simp
qed

text \<open>
  C3 as stated, with the mirror update as the only effect, fails on the dashboard: for a
  threat of level \<^verbatim>\<open>LOW\<close> the handler also writes the pretty-printed \<^verbatim>\<open>data\<close> into
  \<^verbatim>\<open>alerts-area\<close>, which is not the mirror of the message. It fails in both scripts for
  the message \<^verbatim>\<open>null\<close>, which has no type: the handler writes the mirror and ends with a
  TypeError.
\<close>

theorem quiet_message_writes_surfaces_only_counterexample:
  "threat_of low_alert = None
   \<and> \<not> only_text_of [mirror_id Dashboard]
         (page_of [(''live-data'', ''-''), (''alerts-area'', ''-'')])
         (snd (onmessage Dashboard [''m'' \<mapsto> low_alert] ''m''
                 (page_of [(''live-data'', ''-''), (''alerts-area'', ''-'')])))
   \<and> map textContent
         (body (snd (onmessage Dashboard [''m'' \<mapsto> low_alert] ''m''
                       (page_of [(''live-data'', ''-''), (''alerts-area'', ''-'')]))))
       = [stringify low_alert,
          stringify (JObj [(''location'', JStr ''Goa''), (''threat_level'', JStr ''LOW'')])]
   \<and> threat_of JNull = None
   \<and> fst (onmessage LiveMonitoring [''n'' \<mapsto> JNull] ''n'' (page_of [(''alerts-area'', ''-'')]))
       = Some TypeError
   \<and> map textContent
         (body (snd (onmessage LiveMonitoring [''n'' \<mapsto> JNull] ''n''
                       (page_of [(''alerts-area'', ''-'')]))))
       = [''null'']
   \<and> fst (onmessage Dashboard [''n'' \<mapsto> JNull] ''n''
              (page_of [(''live-data'', ''-''), (''alerts-area'', ''-'')]))
       = Some TypeError"
  by (simp add: eval_defs low_alert_def only_text_of_def stringify_def wrap_def quote_def
      quote_char_def)

text \<open>The hypotheses of C3 hold for an update that is not a threat, on a well-formed
  dashboard with both surfaces: the mirror is written and \<^verbatim>\<open>alerts-area\<close> is as it was. They
  hold for the \<^verbatim>\<open>LOW\<close> threat too, whose data \<^verbatim>\<open>alerts-area\<close> gets.\<close>

theorem quiet_message_writes_surfaces_only_witness:
  "[''m'' \<mapsto> plain_update] ''m'' = Some plain_update
   \<and> threat_of plain_update = None
   \<and> wf_page (page_of [(''live-data'', ''-''), (''alerts-area'', ''-'')])
   \<and> onmessage Dashboard [''m'' \<mapsto> plain_update] ''m''
         (page_of [(''live-data'', ''-''), (''alerts-area'', ''-'')])
       = (None, write_text ''live-data'' (stringify plain_update)
                  (page_of [(''live-data'', ''-''), (''alerts-area'', ''-'')]))
   \<and> new_elements (page_of [(''live-data'', ''-''), (''alerts-area'', ''-'')])
         (snd (onmessage Dashboard [''m'' \<mapsto> plain_update] ''m''
                 (page_of [(''live-data'', ''-''), (''alerts-area'', ''-'')]))) = []
   \<and> only_text_of [''live-data'', ''alerts-area'']
         (page_of [(''live-data'', ''-''), (''alerts-area'', ''-'')])
         (snd (onmessage Dashboard [''m'' \<mapsto> plain_update] ''m''
                 (page_of [(''live-data'', ''-''), (''alerts-area'', ''-'')])))
   \<and> [''m'' \<mapsto> low_alert] ''m'' = Some low_alert
   \<and> threat_of low_alert = None
   \<and> onmessage Dashboard [''m'' \<mapsto> low_alert] ''m''
         (page_of [(''live-data'', ''-''), (''alerts-area'', ''-'')])
       = (None,
          write_text ''alerts-area''
            (stringify (JObj [(''location'', JStr ''Goa''), (''threat_level'', JStr ''LOW'')]))
            (write_text ''live-data'' (stringify low_alert)
               (page_of [(''live-data'', ''-''), (''alerts-area'', ''-'')])))"
proof -
  let ?pg = "page_of [(''live-data'', ''-''), (''alerts-area'', ''-'')]"
  have h1: "[''m'' \<mapsto> plain_update] ''m'' = Some plain_update" by simp
  have h2: "threat_of plain_update = None" by (simp add: threat_of_def plain_update_def)
  have h3: "wf_page ?pg" by (simp add: wf_page_def page_of_def enumerate_eq_zip)
  have k1: "[''m'' \<mapsto> low_alert] ''m'' = Some low_alert" by simp
  have k2: "threat_of low_alert = None" by (simp add: threat_of_def low_alert_def)
  have s1: "surface_writes Dashboard plain_update ?pg
              = write_text ''live-data'' (stringify plain_update) ?pg"
    by (simp add: surface_writes_def shown_data_def plain_update_def)
  have s2: "surface_writes Dashboard low_alert ?pg
              = write_text ''alerts-area''
                  (stringify (JObj [(''location'', JStr ''Goa''), (''threat_level'', JStr ''LOW'')]))
                  (write_text ''live-data'' (stringify low_alert) ?pg)"
    by (simp add: surface_writes_def shown_data_def low_alert_def)
  have c1: "(if plain_update = JNull
                 \<and> (Dashboard = Dashboard \<longrightarrow> getElementById ?pg ''alerts-area'' \<noteq> None)
               then Some TypeError else None) = None"
    by (simp add: plain_update_def)
  have c2: "(if low_alert = JNull
                 \<and> (Dashboard = Dashboard \<longrightarrow> getElementById ?pg ''alerts-area'' \<noteq> None)
               then Some TypeError else None) = None"
    by (simp add: low_alert_def)
  have a: "onmessage Dashboard [''m'' \<mapsto> plain_update] ''m'' ?pg
             = (None, write_text ''live-data'' (stringify plain_update) ?pg)
           \<and> new_elements ?pg (snd (onmessage Dashboard [''m'' \<mapsto> plain_update] ''m'' ?pg)) = []
           \<and> only_text_of [''live-data'', ''alerts-area''] ?pg
                (snd (onmessage Dashboard [''m'' \<mapsto> plain_update] ''m'' ?pg))"
    using quiet_message_writes_surfaces_only[of "[''m'' \<mapsto> plain_update]" "''m''"
        plain_update Dashboard ?pg, OF h1 h2, unfolded c1 s1 surfaces.simps] h3
    by blast
  have b: "onmessage Dashboard [''m'' \<mapsto> low_alert] ''m'' ?pg
             = (None,
                write_text ''alerts-area''
                  (stringify (JObj [(''location'', JStr ''Goa''), (''threat_level'', JStr ''LOW'')]))
                  (write_text ''live-data'' (stringify low_alert) ?pg))"
    using quiet_message_writes_surfaces_only[of "[''m'' \<mapsto> low_alert]" "''m''"
        low_alert Dashboard ?pg, OF k1 k2, unfolded c2 s2]
    by blast
  from h1 h2 h3 k1 k2 a b show ?thesis by blast
qed

section \<open>The gate on the toasts of the dashboard\<close>

lemma new_elements_same_length:
  "length (body st2) = length (body st) \<Longrightarrow> new_elements st st2 = []"
  by (simp add: new_elements_def)

lemma threat_toast_new_elements:
  assumes "length (body a1) = length (body a)" "length (body b1) = length (body b)"
    and "fresh a1 = fresh b1"
  shows "new_elements a (snd (threat_toast d a1)) = new_elements b (snd (threat_toast d b1))"
  using assms unfolding threat_toast_def
  by (auto split: sum.splits option.splits
      simp: new_elements_showToast new_elements_same_length)

lemma live_new_elements_indep:
  assumes "fresh st = fresh st'"
  shows "new_elements st (snd (live_onmessage parse payload st))
         = new_elements st' (snd (live_onmessage parse payload st'))"
proof (cases "parse payload")
  case None
  then show ?thesis by (simp add: live_onmessage_def new_elements_same_length)
next
  case (Some M)
  let ?a = "write_text ''alerts-area'' (stringify M) st"
  let ?b = "write_text ''alerts-area'' (stringify M) st'"
  have t: "new_elements st (snd (threat_toast d ?a)) = new_elements st' (snd (threat_toast d ?b))"
    for d
    by (rule threat_toast_new_elements) (simp_all add: assms)
  have q: "new_elements st ?a = new_elements st' ?b"
    by (simp add: new_elements_same_length)
  show ?thesis
    unfolding live_onmessage_decoded[of parse payload M, OF Some] Let_def
    by (simp add: t q split: sum.splits option.splits)
qed

text \<open>
  \<^bold>\<open>C10\<close>. On the dashboard a page without an \<^verbatim>\<open>alerts-area\<close> element gets no toast from any
  message, threats of level \<^verbatim>\<open>CRITICAL\<close> or \<^verbatim>\<open>HIGH\<close> included: the handler ends normally
  after the \<^verbatim>\<open>live-data\<close> update. On the live monitoring page such a threat gets its toast
  on every page, and for every frame the elements the handler attaches are the same on
  any two pages that agree on the identity the next created element gets.
\<close>

theorem alerts_area_gates_dashboard_toasts:
  "(parse payload = Some M \<longrightarrow> getElementById st ''alerts-area'' = None \<longrightarrow>
      dashboard_onmessage parse payload st = (None, write_text ''live-data'' (stringify M) st)
      \<and> new_elements st (snd (dashboard_onmessage parse payload st)) = []
      \<and> timers (snd (dashboard_onmessage parse payload st)) = timers st)
   \<and> (parse payload = Some M \<longrightarrow> threat_of M = Some (lvl, loc) \<longrightarrow> template loc = Some s \<longrightarrow>
        new_elements st (snd (live_onmessage parse payload st))
        = [toast_element (fresh st) (lvl @ '' THREAT: '' @ s) (severity lvl)])
   \<and> (fresh st = fresh st' \<longrightarrow>
        new_elements st (snd (live_onmessage parse payload st))
        = new_elements st' (snd (live_onmessage parse payload st')))"
proof (intro conjI impI)
  assume p: "parse payload = Some M" and a: "getElementById st ''alerts-area'' = None"
  show d: "dashboard_onmessage parse payload st
             = (None, write_text ''live-data'' (stringify M) st)"
    by (simp add: dashboard_onmessage_decoded[of parse payload M, OF p] a)
  show "new_elements st (snd (dashboard_onmessage parse payload st)) = []"
    by (simp add: d new_elements_same_length)
  show "timers (snd (dashboard_onmessage parse payload st)) = timers st"
    by (simp add: d)
next
  assume p: "parse payload = Some M" and t: "threat_of M = Some (lvl, loc)"
    and s: "template loc = Some s"
  have "LiveMonitoring = Dashboard \<longrightarrow> getElementById st ''alerts-area'' \<noteq> None" by simp
  from onmessage_threat[of parse payload M lvl loc LiveMonitoring st, OF p t this] s
  have "live_onmessage parse payload st
          = (None, showToast (lvl @ '' THREAT: '' @ s) (severity lvl)
                     (write_text ''alerts-area'' (stringify M) st))"
    by (auto simp: onmessage_def Let_def)
  then show "new_elements st (snd (live_onmessage parse payload st))
        = [toast_element (fresh st) (lvl @ '' THREAT: '' @ s) (severity lvl)]"
    by (simp add: new_elements_showToast)
next
  assume "fresh st = fresh st'"
  then show "new_elements st (snd (live_onmessage parse payload st))
        = new_elements st' (snd (live_onmessage parse payload st'))"
    by (rule live_new_elements_indep)
qed

text \<open>The hypotheses of C10 hold for the Chennai alert: no toast on a dashboard that has
  only \<^verbatim>\<open>live-data\<close>, one toast on a live monitoring page with no element at all.\<close>

theorem alerts_area_gates_dashboard_toasts_witness:
  "[''m'' \<mapsto> chennai_alert] ''m'' = Some chennai_alert
   \<and> getElementById (page_of [(''live-data'', ''-'')]) ''alerts-area'' = None
   \<and> threat_of chennai_alert = Some (''CRITICAL'', Some (JStr ''Chennai''))
   \<and> template (Some (JStr ''Chennai'')) = Some ''Chennai''
   \<and> fresh (page_of []) = fresh (page_of [])
   \<and> new_elements (page_of [(''live-data'', ''-'')])
        (snd (dashboard_onmessage [''m'' \<mapsto> chennai_alert] ''m''
                (page_of [(''live-data'', ''-'')]))) = []
   \<and> new_elements (page_of [])
        (snd (live_onmessage [''m'' \<mapsto> chennai_alert] ''m'' (page_of [])))
       = [toast_element 0 ''CRITICAL THREAT: Chennai'' ''danger'']"
proof -
  have h1: "[''m'' \<mapsto> chennai_alert] ''m'' = Some chennai_alert" by simp
  have h2: "getElementById (page_of [(''live-data'', ''-'')]) ''alerts-area'' = None"
    by (simp add: getElementById_def page_of_def enumerate_eq_zip)
  have h3: "threat_of chennai_alert = Some (''CRITICAL'', Some (JStr ''Chennai''))"
    by (simp add: threat_of_def chennai_alert_def)
  have h4: "template (Some (JStr ''Chennai'')) = Some ''Chennai''" by simp
  have f: "fresh (page_of []) = 0" by (simp add: page_of_def)
  have a: "new_elements (page_of [(''live-data'', ''-'')])
        (snd (dashboard_onmessage [''m'' \<mapsto> chennai_alert] ''m''
                (page_of [(''live-data'', ''-'')]))) = []"
    using alerts_area_gates_dashboard_toasts[of "[''m'' \<mapsto> chennai_alert]" "''m''"
        chennai_alert "page_of [(''live-data'', ''-'')]" "''CRITICAL''"
        "Some (JStr ''Chennai'')" "''Chennai''" "page_of [(''live-data'', ''-'')]"] h1 h2
    by blast
  have b: "new_elements (page_of [])
        (snd (live_onmessage [''m'' \<mapsto> chennai_alert] ''m'' (page_of [])))
       = [toast_element 0 ''CRITICAL THREAT: Chennai'' ''danger'']"
    using alerts_area_gates_dashboard_toasts[of "[''m'' \<mapsto> chennai_alert]" "''m''"
        chennai_alert "page_of []" "''CRITICAL''" "Some (JStr ''Chennai'')" "''Chennai''"
        "page_of []"] h1 h3 h4 unfolding f by (simp add: severity_def)
  show ?thesis using h1 h2 h3 h4 a b by simp
qed

section \<open>The socket\<close>

lemma setStatus_fields:
  "timers (setStatus msg err st) = timers st @ [(clock st + 3500, banner_ref st)]"
  "clock (setStatus msg err st) = clock st"
  "sockets (setStatus msg err st) = sockets st"
  "map ident (body (setStatus msg err st))
     = map ident (body st) @ (if getElementById st ''ws-status'' = None then [fresh st] else [])"
  "map elem_id (body (setStatus msg err st))
     = map elem_id (body st) @ (if getElementById st ''ws-status'' = None then [''ws-status''] else [])"
  "fresh (setStatus msg err st)
     = (if getElementById st ''ws-status'' = None then Suc (fresh st) else fresh st)"
  unfolding setStatus_def banner_ref_def
  by (auto split: option.splits
      simp: setTimeout_def appendChild_def set_textContent_def Let_def comp_def if_distrib
      cong: if_cong)

lemma remove_fields [simp]:
  "sockets (remove n st) = sockets st" "timers (remove n st) = timers st"
  "clock (remove n st) = clock st" "fresh (remove n st) = fresh st"
  by (simp_all add: remove_def)

lemma fold_remove_fields [simp]:
  "sockets (fold (\<lambda>(w, n). remove n) ts st) = sockets st"
  "timers (fold (\<lambda>(w, n). remove n) ts st) = timers st"
  "clock (fold (\<lambda>(w, n). remove n) ts st) = clock st"
  "fresh (fold (\<lambda>(w, n). remove n) ts st) = fresh st"
  by (induction ts arbitrary: st; simp add: case_prod_beta)+

lemma body_fold_remove:
  "body (fold (\<lambda>(w, n). remove n) ts st) = filter (\<lambda>e. ident e \<notin> snd ` set ts) (body st)"
  by (induction ts arbitrary: st) (auto simp: remove_def case_prod_beta intro: filter_cong)

lemma advance_fields:
  "sockets (advance d st) = sockets st"
  "clock (advance d st) = clock st + d"
  "fresh (advance d st) = fresh st"
  "timers (advance d st) = filter (\<lambda>(w, n). \<not> w \<le> clock st + d) (timers st)"
  "body (advance d st)
     = filter (\<lambda>e. ident e \<notin> snd ` set (filter (\<lambda>(w, n). w \<le> clock st + d) (timers st)))
         (body st)"
  by (simp_all add: advance_def Let_def body_fold_remove)

lemma onclose_write_text:
  "dashboard_onclose st =
     write_text ''alerts-area'' ''WebSocket disconnected''
       (write_text ''live-data'' ''WebSocket disconnected''
          (setStatus ''WebSocket disconnected'' True st))"
  "live_onclose st =
     write_text ''alerts-area'' ''WebSocket disconnected''
       (setStatus ''WebSocket disconnected'' True st)"
  by (simp_all add: dashboard_onclose_def live_onclose_def write_text_def Let_def)

lemma onmessage_sockets: "sockets (snd (onmessage sc parse payload st)) = sockets st"
proof (cases "parse payload")
  case None
  then show ?thesis
    by (cases sc) (simp_all add: onmessage_def dashboard_onmessage_def live_onmessage_def)
next
  case (Some M)
  from onmessage_shape[of parse payload M sc st, OF Some] obtain st2 where
    "surf_written sc M st st2"
    "snd (onmessage sc parse payload st) = st2
      \<or> (\<exists>m l. snd (onmessage sc parse payload st) = showToast m l st2)"
    by blast
  then show ?thesis
    using surf_written_fields(5)[of sc M st st2] by (auto simp: showToast_fields)
qed

lemma step_sockets: "sockets (step sc parse ev st) = sockets st"
  by (cases sc; cases ev)
    (simp_all add: dashboard_onopen_def live_onopen_def dashboard_onerror_def live_onerror_def
      onclose_write_text setStatus_fields advance_fields onmessage_sockets)

lemma run_sockets: "sockets (run sc parse evs st) = sockets st"
  unfolding run_def by (induction evs arbitrary: st) (simp_all add: step_sockets)

text \<open>
  \<^bold>\<open>C7\<close>, as amended. Loading a script constructs one WebSocket, no handler constructs
  another, and its URL is \<^verbatim>\<open>ws://\<close>, the host of the page, \<^verbatim>\<open>/ws\<close>: the scheme is
  \<^verbatim>\<open>ws\<close> whatever the protocol of the page.
\<close>

theorem one_socket_scheme_ws:
  "sockets (run sc parse evs (load sc loc st)) = sockets st @ [''ws://'' @ host loc @ ''/ws'']"
  by (cases sc) (simp_all add: run_sockets load_def dashboard_url_def live_url_def)

text \<open>C7 as stated fails on a page served over \<^verbatim>\<open>https\<close>: the scheme is \<^verbatim>\<open>ws\<close>, not
  \<^verbatim>\<open>wss\<close>, in both scripts.\<close>

theorem one_socket_scheme_ws_counterexample:
  "sockets (load Dashboard \<lparr>protocol = ''https:'', host = ''example.org''\<rparr> (page_of []))
     = [''ws://example.org/ws'']
   \<and> sockets (load LiveMonitoring \<lparr>protocol = ''https:'', host = ''example.org''\<rparr> (page_of []))
     = [''ws://example.org/ws'']"
  by (simp add: load_def dashboard_url_def live_url_def page_of_def)

section \<open>The status banner\<close>

lemma banner_count_elem_ids:
  "banner_count st = length (filter (\<lambda>i. i = ''ws-status'') (map elem_id (body st)))"
  by (simp add: banner_count_def filter_map comp_def)

lemma find_None_filter: "find P xs = None \<Longrightarrow> filter P xs = []"
  by (induction xs) (auto split: if_splits)

lemma banner_count_setStatus:
  "banner_count (setStatus msg err st)
     = (if getElementById st ''ws-status'' = None then 1 else banner_count st)"
  unfolding banner_count_elem_ids setStatus_fields
  by (auto simp: getElementById_def filter_map comp_def dest: find_None_filter)

lemma banner_count_write_text [simp]:
  "banner_count (write_text i t st) = banner_count st"
  by (simp add: banner_count_elem_ids)

lemma banner_count_showToast [simp]:
  "banner_count (showToast m l st) = banner_count st"
  by (simp add: banner_count_def showToast_fields toast_element_def)

lemma banner_count_advance: "banner_count (advance d st) \<le> banner_count st"
proof -
  have "length (filter P (filter Q xs)) \<le> length (filter P xs)" for P Q and xs :: "element list"
    by (induction xs) auto
  then show ?thesis by (simp add: banner_count_def advance_fields)
qed

lemma banner_count_onmessage:
  "banner_count (snd (onmessage sc parse payload st)) = banner_count st"
proof (cases "parse payload")
  case None
  then show ?thesis
    by (cases sc) (simp_all add: onmessage_def dashboard_onmessage_def live_onmessage_def)
next
  case (Some M)
  from onmessage_shape[of parse payload M sc st, OF Some] obtain st2 where
    w: "surf_written sc M st st2" and
    r: "snd (onmessage sc parse payload st) = st2
      \<or> (\<exists>m l. snd (onmessage sc parse payload st) = showToast m l st2)"
    by blast
  have "banner_count st2 = banner_count st"
    using surf_written_fields(7)[OF w] by (simp add: banner_count_elem_ids)
  with r show ?thesis by auto
qed

lemma banner_count_step:
  "banner_count st \<le> 1 \<Longrightarrow> banner_count (step sc parse ev st) \<le> 1"
  using banner_count_advance[of _ st]
  by (cases sc; cases ev)
    (auto simp: dashboard_onopen_def live_onopen_def dashboard_onerror_def live_onerror_def
      onclose_write_text banner_count_setStatus banner_count_onmessage intro: order_trans)

lemma banner_count_run:
  "banner_count st \<le> 1 \<Longrightarrow> banner_count (run sc parse evs st) \<le> 1"
  unfolding run_def
proof (induction evs arbitrary: st)
  case Nil
  then show ?case by simp
next
  case (Cons ev evs)
  from Cons.IH[OF banner_count_step[OF Cons.prems]] show ?case by simp
qed

lemma wf_page_setStatus: "wf_page st \<Longrightarrow> wf_page (setStatus msg err st)"
proof -
  assume wf: "wf_page st"
  have k: "list_all (\<lambda>e. ident e < k) xs = (\<forall>x \<in> set (map ident xs). x < k)"
    for k and xs :: "element list"
    by (auto simp: list_all_iff)
  have b: "banner_ref st \<le> fresh st"
    using wf getElementById_Some[of st "''ws-status''"]
    by (fastforce simp: banner_ref_def wf_page_def list_all_iff split: option.splits
        intro: less_imp_le)
  have b': "getElementById st ''ws-status'' \<noteq> None \<Longrightarrow> banner_ref st < fresh st"
    using wf getElementById_Some[of st "''ws-status''"]
    by (auto simp: banner_ref_def wf_page_def list_all_iff split: option.splits)
  show ?thesis
    using wf b b' unfolding wf_page_def k setStatus_fields
    by (auto simp: list_all_iff)
qed

lemma banner_after_setStatus:
  "map_option (\<lambda>b. (ident b, textContent b)) (getElementById (setStatus msg err st) ''ws-status'')
     = Some (banner_ref st, msg)"
proof (cases "getElementById st ''ws-status''")
  case None
  then have "find (\<lambda>e. elem_id e = ''ws-status'')
               (map (\<lambda>e. if ident e = n then e\<lparr>textContent := t\<rparr> else e) (body st)) = None" for n t
    by (simp add: find_map_text getElementById_def)
  with None show ?thesis
    by (simp add: setStatus_def banner_ref_def getElementById_def setTimeout_def
        set_textContent_def appendChild_def find_snoc)
next
  case (Some b)
  then show ?thesis
    by (simp add: setStatus_def banner_ref_def setTimeout_def getElementById_def
        set_textContent_def find_map_text)
qed

lemma banner_kept_by_write_text:
  assumes wf: "wf_page st" and i: "i \<noteq> ''ws-status''"
  shows "getElementById (write_text i t st) ''ws-status'' = getElementById st ''ws-status''"
proof (cases "getElementById st i")
  case None
  then show ?thesis by (simp add: write_text_def)
next
  case (Some a)
  show ?thesis
  proof (cases "getElementById st ''ws-status''")
    case None
    then show ?thesis by (simp add: getElementById_write_text Some)
  next
    case b: (Some b)
    from wf_distinct_ids[OF wf Some b i] show ?thesis
      by (simp add: getElementById_write_text Some b)
  qed
qed

lemma lifecycle_step:
  assumes wf: "wf_page st" and ev: "ev \<in> {Open, Failure, Close}"
  shows "getElementById (step sc parse ev st) ''ws-status''
           = getElementById (setStatus (status_text sc ev) (ev \<noteq> Open) st) ''ws-status''"
    and "map ident (body (step sc parse ev st))
           = map ident (body (setStatus (status_text sc ev) (ev \<noteq> Open) st))"
    and "timers (step sc parse ev st)
           = timers (setStatus (status_text sc ev) (ev \<noteq> Open) st)"
    and "clock (step sc parse ev st) = clock st"
    and "banner_count (step sc parse ev st)
           = banner_count (setStatus (status_text sc ev) (ev \<noteq> Open) st)"
  using ev wf_page_setStatus[OF wf] wf_page_write_text
  by (cases sc; auto simp: dashboard_onopen_def live_onopen_def dashboard_onerror_def
      live_onerror_def onclose_write_text banner_kept_by_write_text setStatus_fields)+

lemma sole_banner:
  assumes "banner_count st \<le> 1" "getElementById st ''ws-status'' = Some b"
    and "e \<in> set (body st)" "elem_id e = ''ws-status''"
  shows "e = b"
proof -
  let ?f = "filter (\<lambda>e. elem_id e = ''ws-status'') (body st)"
  have "b \<in> set ?f" "e \<in> set ?f"
    using assms getElementById_Some[OF assms(2)] by auto
  moreover have "length ?f \<le> 1" using assms(1) by (simp add: banner_count_def)
  ultimately show ?thesis
    by (cases ?f) (auto simp del: set_filter)
qed

lemma banner_expires:
  assumes c: "banner_count st \<le> 1" and b: "getElementById st ''ws-status'' = Some b"
    and t: "(w, ident b) \<in> set (timers st)" and d: "w \<le> clock st + d"
  shows "banner_count (advance d st) = 0"
proof -
  have "ident e \<in> snd ` set (filter (\<lambda>(w, n). w \<le> clock st + d) (timers st))"
    if "e \<in> set (body st)" "elem_id e = ''ws-status''" for e
  proof -
    have "e = b" by (rule sole_banner[OF c b that])
    with t d show ?thesis by force
  qed
  then show ?thesis
    by (auto simp: banner_count_def advance_fields filter_empty_conv)
qed

text \<open>
  \<^bold>\<open>C9\<close>. A page that starts with at most one \<^verbatim>\<open>ws-status\<close> element has at most one
  after any run of events, timers included. On a well-formed page each of the open,
  error and close handlers leaves a banner that carries the text of that handler and is
  the element that was there, or a new one appended when none was; the handler schedules
  the removal of that element 3500 ms from now, and once that time has passed no banner is
  left.
\<close>

theorem single_status_banner:
  "(banner_count st \<le> 1 \<longrightarrow> banner_count (run sc parse evs st) \<le> 1)
   \<and> (wf_page st \<longrightarrow> ev \<in> {Open, Failure, Close} \<longrightarrow>
        map_option (\<lambda>b. (ident b, textContent b))
            (getElementById (step sc parse ev st) ''ws-status'')
          = Some (banner_ref st, status_text sc ev)
        \<and> map ident (body (step sc parse ev st))
          = map ident (body st) @ (if getElementById st ''ws-status'' = None then [fresh st] else [])
        \<and> timers (step sc parse ev st) = timers st @ [(clock st + 3500, banner_ref st)]
        \<and> (banner_count st \<le> 1 \<longrightarrow> 3500 \<le> d \<longrightarrow>
             banner_count (advance d (step sc parse ev st)) = 0))"
proof (intro conjI impI)
  assume "banner_count st \<le> 1"
  then show "banner_count (run sc parse evs st) \<le> 1" by (rule banner_count_run)
next
  assume wf: "wf_page st" and ev: "ev \<in> {Open, Failure, Close}"
  note ls = lifecycle_step[OF wf ev, of sc parse]
  show g: "map_option (\<lambda>b. (ident b, textContent b))
            (getElementById (step sc parse ev st) ''ws-status'')
          = Some (banner_ref st, status_text sc ev)"
    unfolding ls(1) by (rule banner_after_setStatus)
  show "map ident (body (step sc parse ev st))
          = map ident (body st) @ (if getElementById st ''ws-status'' = None then [fresh st] else [])"
    unfolding ls(2) by (rule setStatus_fields)
  show t: "timers (step sc parse ev st) = timers st @ [(clock st + 3500, banner_ref st)]"
    unfolding ls(3) by (rule setStatus_fields)
  assume c: "banner_count st \<le> 1" and d: "3500 \<le> d"
  from g obtain b where b: "getElementById (step sc parse ev st) ''ws-status'' = Some b"
    and ib: "ident b = banner_ref st" by auto
  have c': "banner_count (step sc parse ev st) \<le> 1" by (rule banner_count_step[OF c])
  show "banner_count (advance d (step sc parse ev st)) = 0"
  proof (rule banner_expires[OF c' b])
    show "(clock st + 3500, ident b) \<in> set (timers (step sc parse ev st))"
      by (simp add: t ib)
    show "clock st + 3500 \<le> clock (step sc parse ev st) + d"
      using d by (simp add: ls(4))
  qed
qed

text \<open>The hypotheses of C9 hold on a live monitoring page that is being closed.\<close>

theorem single_status_banner_witness:
  "banner_count (page_of [(''alerts-area'', ''-'')]) \<le> 1
   \<and> wf_page (page_of [(''alerts-area'', ''-'')])
   \<and> Close \<in> {Open, Failure, Close}
   \<and> (3500::nat) \<le> 3500
   \<and> banner_count (run LiveMonitoring Map.empty [Open, Elapse 1000, Failure, Close]
                      (page_of [(''alerts-area'', ''-'')])) \<le> 1
   \<and> map_option (\<lambda>b. (ident b, textContent b))
         (getElementById (step LiveMonitoring Map.empty Close (page_of [(''alerts-area'', ''-'')]))
            ''ws-status'')
       = Some (1, ''WebSocket disconnected'')
   \<and> timers (step LiveMonitoring Map.empty Close (page_of [(''alerts-area'', ''-'')]))
       = [(3500, 1)]
   \<and> banner_count (advance 3500
         (step LiveMonitoring Map.empty Close (page_of [(''alerts-area'', ''-'')]))) = 0"
proof -
  let ?pg = "page_of [(''alerts-area'', ''-'')]"
  have h1: "banner_count ?pg \<le> 1" by (simp add: banner_count_def page_of_def enumerate_eq_zip)
  have h2: "wf_page ?pg" by (simp add: wf_page_def page_of_def enumerate_eq_zip)
  have h3: "Close \<in> {Open, Failure, Close}" by simp
  have h4: "(3500::nat) \<le> 3500" by simp
  have f: "banner_ref ?pg = 1" "timers ?pg = []" "clock ?pg = 0"
    by (simp_all add: banner_ref_def getElementById_def page_of_def enumerate_eq_zip)
  show ?thesis
    using single_status_banner[of ?pg LiveMonitoring Map.empty
        "[Open, Elapse 1000, Failure, Close]" Close 3500] h1 h2 h3 h4
    by (simp add: f)
qed

section \<open>Threats in a row\<close>

lemma wf_page_showToast: "wf_page st \<Longrightarrow> wf_page (showToast m l st)"
  unfolding wf_page_def showToast_fields
  by (auto simp: list_all_iff toast_element_def intro: less_SucI)

lemma present_iff: "getElementById st i \<noteq> None \<longleftrightarrow> i \<in> set (map elem_id (body st))"
  by (auto simp: getElementById_def find_None_iff)

lemma text_rel_trans:
  fixes x y z :: element
  assumes "y = x \<or> (elem_id x \<in> A \<and> y = x\<lparr>textContent := textContent y\<rparr>)"
    and "z = y \<or> (elem_id y \<in> A \<and> z = y\<lparr>textContent := textContent z\<rparr>)"
  shows "z = x \<or> (elem_id x \<in> A \<and> z = x\<lparr>textContent := textContent z\<rparr>)"
proof -
  from assms consider "y = x" | "z = y"
    | "elem_id x \<in> A" "y = x\<lparr>textContent := textContent y\<rparr>"
      "z = y\<lparr>textContent := textContent z\<rparr>"
    by auto
  then show ?thesis
  proof cases
    case 1 with assms show ?thesis by simp
  next
    case 2 with assms show ?thesis by simp
  next
    case 3
    have "z = (x\<lparr>textContent := textContent y\<rparr>)\<lparr>textContent := textContent z\<rparr>"
      using 3(2,3) by simp
    then have "z = x\<lparr>textContent := textContent z\<rparr>" by simp
    with 3(1) show ?thesis by simp
  qed
qed

lemma surf_written_wf: "wf_page st \<Longrightarrow> surf_written sc M st st2 \<Longrightarrow> wf_page st2"
  unfolding surf_written_def
  by (cases sc) (auto simp: wf_page_write_text)

lemma list_all2_snoc1:
  "list_all2 P (xs @ [y]) B \<longleftrightarrow> (\<exists>B0 x. B = B0 @ [x] \<and> list_all2 P xs B0 \<and> P y x)"
proof
  assume "list_all2 P (xs @ [y]) B"
  then show "\<exists>B0 x. B = B0 @ [x] \<and> list_all2 P xs B0 \<and> P y x"
    by (auto simp: list_all2_append1 list_all2_Cons1)
next
  assume "\<exists>B0 x. B = B0 @ [x] \<and> list_all2 P xs B0 \<and> P y x"
  then show "list_all2 P (xs @ [y]) B"
    by (auto intro: list_all2_appendI)
qed

lemma threats_run:
  assumes "wf_page st" and "map (escalation parse) ps = map Some ts"
    and "sc = Dashboard \<longrightarrow> getElementById st ''alerts-area'' \<noteq> None"
  shows "\<exists>B. body (run sc parse (map Message ps) st)
              = B @ map2 threat_element [fresh st ..< fresh st + length ps] ts
           \<and> list_all2 (\<lambda>e e'. e' = e \<or> (elem_id e \<in> set (surfaces sc)
                                        \<and> e' = e\<lparr>textContent := textContent e'\<rparr>)) (body st) B
           \<and> timers (run sc parse (map Message ps) st)
              = timers st @ map (\<lambda>n. (clock st + 5500, n)) [fresh st ..< fresh st + length ps]
           \<and> fresh (run sc parse (map Message ps) st) = fresh st + length ps
           \<and> clock (run sc parse (map Message ps) st) = clock st"
  using assms
proof (induction ps arbitrary: st ts)
  case Nil
  then show ?case by (simp add: run_def list.rel_refl)
next
  case (Cons p ps)
  let ?P = "\<lambda>e e'. e' = e \<or> (elem_id e \<in> set (surfaces sc)
                                        \<and> e' = e\<lparr>textContent := textContent e'\<rparr>)"
  from Cons.prems(2) obtain t ts' where ts: "ts = t # ts'"
    and e: "escalation parse p = Some t" and rest: "map (escalation parse) ps = map Some ts'"
    by (cases ts) auto
  from e obtain M loc where p: "parse p = Some M" and th: "threat_of M = Some (fst t, loc)"
    and tm: "template loc = Some (snd t)"
    unfolding escalation_def by (auto split: option.splits)
  from onmessage_threat[of parse p M "fst t" loc sc st, OF p th Cons.prems(3)] tm
  obtain st2 where w: "surf_written sc M st st2"
    and r: "onmessage sc parse p st
              = (None, showToast (fst t @ '' THREAT: '' @ snd t) (severity (fst t)) st2)"
    unfolding surf_written_def by (cases sc) (auto simp: Let_def)
  let ?st' = "snd (onmessage sc parse p st)"
  have st': "?st' = showToast (fst t @ '' THREAT: '' @ snd t) (severity (fst t)) st2"
    using r by simp
  note f = surf_written_fields[OF w]
  have wf2: "wf_page st2" by (rule surf_written_wf[OF Cons.prems(1) w])
  have wf': "wf_page ?st'" unfolding st' by (rule wf_page_showToast[OF wf2])
  have b': "body ?st' = body st2 @ [threat_element (fresh st) t]"
    unfolding st' by (simp add: showToast_fields f threat_element_def)
  have fr: "fresh ?st' = Suc (fresh st)" and cl: "clock ?st' = clock st"
    and ti: "timers ?st' = timers st @ [(clock st + 5500, fresh st)]"
    unfolding st' by (simp_all add: showToast_fields f)
  have pres: "sc = Dashboard \<longrightarrow> getElementById ?st' ''alerts-area'' \<noteq> None"
    using Cons.prems(3) unfolding present_iff b' by (simp add: f)
  from Cons.IH[OF wf' rest pres] obtain B where
    B: "body (run sc parse (map Message ps) ?st')
          = B @ map2 threat_element [fresh ?st' ..< fresh ?st' + length ps] ts'"
    and rel: "list_all2 ?P (body ?st') B"
    and tim: "timers (run sc parse (map Message ps) ?st')
          = timers ?st' @ map (\<lambda>n. (clock ?st' + 5500, n)) [fresh ?st' ..< fresh ?st' + length ps]"
    and fre: "fresh (run sc parse (map Message ps) ?st') = fresh ?st' + length ps"
    and clo: "clock (run sc parse (map Message ps) ?st') = clock ?st'"
    by blast
  from rel[unfolded b'] obtain B0 x where B0: "B = B0 @ [x]"
    and rel0: "list_all2 ?P (body st2) B0" and x: "?P (threat_element (fresh st) t) x"
    unfolding list_all2_snoc1 by blast
  have xe: "x = threat_element (fresh st) t"
  proof -
    have "elem_id (threat_element (fresh st) t) \<notin> set (surfaces sc)"
      by (cases sc) (simp_all add: threat_element_def toast_element_def)
    with x show ?thesis by blast
  qed
  have rel1: "list_all2 ?P (body st) (body st2)"
    using surf_written_only_text[OF Cons.prems(1) w] by (simp add: only_text_of_def)
  have relB: "list_all2 ?P (body st) B0"
    by (rule list_all2_trans[OF _ rel1 rel0]) (rule text_rel_trans)
  have idx: "[fresh st ..< fresh st + length (p # ps)]
              = fresh st # [fresh ?st' ..< fresh ?st' + length ps]"
  proof -
    have "[fresh st ..< fresh st + Suc (length ps)]
            = fresh st # [Suc (fresh st) ..< fresh st + Suc (length ps)]"
      by (rule upt_conv_Cons) simp
    then show ?thesis unfolding fr by simp
  qed
  have run: "run sc parse (map Message (p # ps)) st = run sc parse (map Message ps) ?st'"
    by (simp add: run_def)
  have 1: "body (run sc parse (map Message ps) ?st')
             = B0 @ map2 threat_element [fresh st ..< fresh st + length (p # ps)] ts"
    unfolding B B0 xe idx ts by simp
  have 2: "timers (run sc parse (map Message ps) ?st')
             = timers st @ map (\<lambda>n. (clock st + 5500, n)) [fresh st ..< fresh st + length (p # ps)]"
    unfolding tim ti idx cl by simp
  have 3: "fresh (run sc parse (map Message ps) ?st') = fresh st + length (p # ps)"
    unfolding fre fr by simp
  have 4: "clock (run sc parse (map Message ps) ?st') = clock st"
    unfolding clo cl ..
  show ?case
    unfolding run using 1 relB 2 3 4 by blast
qed

lemma threat_element_ident [simp]: "ident (threat_element n t) = n"
  by (simp add: threat_element_def toast_element_def)

lemma text_rel_idents:
  assumes "list_all2 (\<lambda>e e'. e' = e \<or> (elem_id e \<in> A
                                        \<and> e' = e\<lparr>textContent := textContent e'\<rparr>)) xs ys"
  shows "map ident ys = map ident xs"
  using assms
proof (induction rule: list_all2_induct)
  case Nil
  then show ?case by simp
next
  case (Cons x xs y ys)
  from Cons.hyps(1) have "ident y = ident x"
    by (auto dest: arg_cong[of _ _ ident])
  with Cons.IH show ?case by simp
qed

lemma toasts_dwell:
  assumes wf: "wf_page st" and len: "length ts = N"
    and body: "body st' = B @ map2 threat_element [fresh st ..< fresh st + N] ts"
    and rel: "list_all2 (\<lambda>e e'. e' = e \<or> (elem_id e \<in> A
                                        \<and> e' = e\<lparr>textContent := textContent e'\<rparr>)) (body st) B"
    and tim: "timers st' = timers st @ map (\<lambda>n. (clock st + 5500, n)) [fresh st ..< fresh st + N]"
    and clo: "clock st' = clock st"
  shows "filter (\<lambda>e. fresh st \<le> ident e) (body (advance d st'))
           = (if d < 5500 then map2 threat_element [fresh st ..< fresh st + N] ts else [])"
proof -
  let ?T = "map2 threat_element [fresh st ..< fresh st + N] ts"
  let ?D = "snd ` set (filter (\<lambda>(w, n). w \<le> clock st' + d) (timers st'))"
  have a: "ident e < fresh st" if "e \<in> set B" for e
  proof -
    from that have "ident e \<in> set (map ident B)" by simp
    then have "ident e \<in> set (map ident (body st))"
      unfolding text_rel_idents[OF rel] .
    with wf show ?thesis by (auto simp: wf_page_def list_all_iff)
  qed
  have b: "fresh st \<le> ident e \<and> ident e < fresh st + N" if "e \<in> set ?T" for e
    using that by (auto dest!: set_zip_leftD)
  have old: "n < fresh st" if "(w, n) \<in> set (timers st)" for w n
    using wf that by (auto simp: wf_page_def list_all_iff)
  have keep: "ident e \<notin> ?D" if "e \<in> set ?T" "d < 5500" for e
  proof
    assume "ident e \<in> ?D"
    then obtain w where "(w, ident e) \<in> set (timers st')" "w \<le> clock st' + d" by auto
    then show False
      using old[of w "ident e"] b[OF that(1)] that(2) unfolding tim clo by auto
  qed
  have gone: "ident e \<in> ?D" if "e \<in> set ?T" "\<not> d < 5500" for e
  proof -
    have "(clock st + 5500, ident e) \<in> set (timers st')"
      using b[OF that(1)] unfolding tim by auto
    moreover have "clock st + 5500 \<le> clock st' + d" using that(2) clo by simp
    ultimately show ?thesis by force
  qed
  have B0: "filter (\<lambda>e. fresh st \<le> ident e) (filter (\<lambda>e. ident e \<notin> ?D) B) = []"
    unfolding filter_empty_conv using a by (fastforce simp: not_le)
  have T0: "filter (\<lambda>e. fresh st \<le> ident e) (filter (\<lambda>e. ident e \<notin> ?D) ?T)
              = (if d < 5500 then ?T else [])"
  proof (cases "d < 5500")
    case True
    have "filter (\<lambda>e. ident e \<notin> ?D) ?T = ?T"
      by (rule filter_True) (use keep True in blast)
    moreover have "filter (\<lambda>e. fresh st \<le> ident e) ?T = ?T"
      by (rule filter_True) (use b in blast)
    ultimately show ?thesis using True by simp
  next
    case False
    have "filter (\<lambda>e. ident e \<notin> ?D) ?T = []"
      unfolding filter_empty_conv using gone False by blast
    then show ?thesis using False by simp
  qed
  show ?thesis
    unfolding advance_fields body filter_append B0 T0 by simp
qed

section \<open>Error and close\<close>

lemma setStatus_keeps_others:
  assumes wf: "wf_page st" and i: "i \<noteq> ''ws-status''"
  shows "getElementById (setStatus msg err st) i = getElementById st i"
proof -
  have lt: "ident e < fresh st" if "getElementById st i = Some e" for e
    using wf getElementById_Some[OF that] by (auto simp: wf_page_def list_all_iff)
  show ?thesis
  proof (cases "getElementById st ''ws-status''")
    case None
    have "find (\<lambda>e. elem_id e = i)
            (map (\<lambda>e. if ident e = fresh st then e\<lparr>textContent := msg\<rparr> else e) (body st))
          = getElementById st i"
      using lt by (cases "getElementById st i") (auto simp: find_map_text getElementById_def)
    with None i show ?thesis
      by (cases "getElementById st i")
        (auto simp: setStatus_def getElementById_def setTimeout_def set_textContent_def
          appendChild_def find_snoc)
  next
    case (Some b)
    have "getElementById (set_textContent (ident b) msg st) i = getElementById st i"
    proof (cases "getElementById st i")
      case None
      then show ?thesis by (simp add: getElementById_set_textContent)
    next
      case e: (Some e)
      from wf_distinct_ids[OF wf e Some i] show ?thesis
        by (simp add: getElementById_set_textContent e)
    qed
    with Some show ?thesis
      by (simp add: setStatus_def setTimeout_def getElementById_def)
  qed
qed

lemma error_keeps_surfaces:
  assumes "wf_page st" and "i \<noteq> ''ws-status''"
  shows "getElementById (step sc parse Failure st) i = getElementById st i"
  using setStatus_keeps_others[OF assms]
  by (cases sc) (simp_all add: dashboard_onerror_def live_onerror_def)

lemma close_overwrites_surfaces:
  assumes wf: "wf_page st" and i: "i \<in> set (surfaces sc)"
    and e: "getElementById st i = Some e"
  shows "getElementById (step sc parse Close st) i
           = Some (e\<lparr>textContent := ''WebSocket disconnected''\<rparr>)"
proof -
  let ?st1 = "setStatus ''WebSocket disconnected'' True st"
  have wf1: "wf_page ?st1" by (rule wf_page_setStatus[OF wf])
  have ne: "i \<noteq> ''ws-status''" using i by (cases sc) auto
  have e1: "getElementById ?st1 i = Some e"
    using setStatus_keeps_others[OF wf ne] e by simp
  have same: "getElementById (write_text k t s) k
                = map_option (\<lambda>x. x\<lparr>textContent := t\<rparr>) (getElementById s k)" for k t s
    by (cases "getElementById s k") (simp_all add: getElementById_write_text)
  have other: "getElementById (write_text j t s) k = getElementById s k"
    if "wf_page s" "j \<noteq> k" for j k t s
  proof (cases "getElementById s j")
    case None
    then show ?thesis by (simp add: getElementById_write_text)
  next
    case a: (Some a)
    show ?thesis
    proof (cases "getElementById s k")
      case None
      then show ?thesis by (simp add: getElementById_write_text a)
    next
      case b: (Some b)
      from wf_distinct_ids[OF that(1) b a] that(2) show ?thesis
        by (auto simp: getElementById_write_text a b)
    qed
  qed
  show ?thesis
  proof (cases sc)
    case LiveMonitoring
    with i e1 show ?thesis by (simp add: onclose_write_text same)
  next
    case Dashboard
    with i consider "i = ''live-data''" | "i = ''alerts-area''" by auto
    then show ?thesis
    proof cases
      case 1
      with e1 Dashboard show ?thesis
        by (simp add: onclose_write_text same other[OF wf_page_write_text[OF wf1]])
    next
      case 2
      with e1 Dashboard show ?thesis
        by (simp add: onclose_write_text same other[OF wf1])
    qed
  qed
qed

text \<open>The style of the banner: set when \<^verbatim>\<open>setStatus\<close> creates it, kept as it is when
  \<^verbatim>\<open>setStatus\<close> finds one.\<close>

lemma banner_style_new:
  assumes "getElementById st ''ws-status'' = None"
  shows "map_option background (getElementById (setStatus msg err st) ''ws-status'')
           = Some (Some (if err then ''#c92a2a'' else ''#2776ea''))"
proof -
  from assms have "find (\<lambda>e. elem_id e = ''ws-status'')
               (map (\<lambda>e. if ident e = n then e\<lparr>textContent := t\<rparr> else e) (body st)) = None" for n t
    by (simp add: find_map_text getElementById_def)
  with assms show ?thesis
    by (simp add: setStatus_def getElementById_def setTimeout_def set_textContent_def
        appendChild_def find_snoc background_def)
qed

lemma banner_style_kept:
  assumes "getElementById st ''ws-status'' = Some b"
  shows "map_option style (getElementById (setStatus msg err st) ''ws-status'') = Some (style b)"
  using assms
  by (simp add: setStatus_def setTimeout_def getElementById_def set_textContent_def
      find_map_text)

lemmas run_defs =
  run_def dashboard_onopen_def live_onopen_def dashboard_onerror_def live_onerror_def
  dashboard_onclose_def live_onclose_def setStatus_def advance_def remove_def background_def

text \<open>
  \<^bold>\<open>C4\<close> at a close that comes one second after the open, on a dashboard with both
  surfaces: both surfaces read \<^verbatim>\<open>WebSocket disconnected\<close> and so does the banner, but the
  banner is the one the open handler created and keeps its colour \<^verbatim>\<open>#2776ea\<close>; the error
  colour \<^verbatim>\<open>#c92a2a\<close> is what a close without a banner on the page gives.
\<close>

theorem close_reuses_open_banner_style:
  "map (\<lambda>e. (elem_id e, textContent e, background e))
     (body (run Dashboard Map.empty [Open, Elapse 1000, Close]
              (page_of [(''live-data'', ''-''), (''alerts-area'', ''-'')])))
     = [(''live-data'', ''WebSocket disconnected'', None),
        (''alerts-area'', ''WebSocket disconnected'', None),
        (''ws-status'', ''WebSocket disconnected'', Some ''#2776ea'')]
   \<and> map (\<lambda>e. (elem_id e, textContent e, background e))
     (body (run Dashboard Map.empty [Close]
              (page_of [(''live-data'', ''-''), (''alerts-area'', ''-'')])))
     = [(''live-data'', ''WebSocket disconnected'', None),
        (''alerts-area'', ''WebSocket disconnected'', None),
        (''ws-status'', ''WebSocket disconnected'', Some ''#c92a2a'')]"
  by (simp add: eval_defs run_defs)

text \<open>
  \<^bold>\<open>C6\<close> at an error that comes one second after the open, on a live monitoring page: the
  surface is as it was and the banner reads \<^verbatim>\<open>WebSocket error occurred\<close>, but it is the
  banner the open handler created and keeps its colour \<^verbatim>\<open>#2776ea\<close>; the error colour
  \<^verbatim>\<open>#c92a2a\<close> is what an error without a banner on the page gives.
\<close>

theorem error_reuses_open_banner_style:
  "map (\<lambda>e. (elem_id e, textContent e, background e))
     (body (run LiveMonitoring Map.empty [Open, Elapse 1000, Failure]
              (page_of [(''alerts-area'', ''-'')])))
     = [(''alerts-area'', ''-'', None),
        (''ws-status'', ''WebSocket error occurred'', Some ''#2776ea'')]
   \<and> map (\<lambda>e. (elem_id e, textContent e, background e))
     (body (run LiveMonitoring Map.empty [Failure] (page_of [(''alerts-area'', ''-'')])))
     = [(''alerts-area'', ''-'', None),
        (''ws-status'', ''WebSocket error occurred'', Some ''#c92a2a'')]"
  by (simp add: eval_defs run_defs)

section \<open>The lifetime of a toast\<close>

lemma anonymous_map_text:
  "map ident (filter (\<lambda>e. elem_id e = [])
       (map (\<lambda>e. if ident e = k then e\<lparr>textContent := t\<rparr> else e) xs))
     = map ident (filter (\<lambda>e. elem_id e = []) xs)"
  by (induction xs) auto

lemma set_textContent_ids [simp]:
  "idents (set_textContent m t st) = idents st"
  "anonymous (set_textContent m t st) = anonymous st"
  by (simp_all add: idents_def anonymous_def) (simp add: set_textContent_def anonymous_map_text)

lemma write_text_ids [simp]:
  "idents (write_text i t st) = idents st"
  "anonymous (write_text i t st) = anonymous st"
  by (simp_all add: write_text_def split: option.splits)

lemma showToast_ids:
  "idents (showToast m l st) = idents st @ [fresh st]"
  "anonymous (showToast m l st) = anonymous st @ [fresh st]"
  by (simp_all add: idents_def anonymous_def showToast_fields toast_element_def)

lemma setStatus_ids:
  "idents (setStatus msg err st)
     = idents st @ (if getElementById st ''ws-status'' = None then [fresh st] else [])"
  "anonymous (setStatus msg err st) = anonymous st"
proof -
  show "idents (setStatus msg err st)
     = idents st @ (if getElementById st ''ws-status'' = None then [fresh st] else [])"
    by (simp add: idents_def setStatus_fields)
  show "anonymous (setStatus msg err st) = anonymous st"
    unfolding anonymous_def
    by (cases "getElementById st ''ws-status''")
      (simp_all add: setStatus_def setTimeout_def set_textContent_def appendChild_def
        anonymous_map_text)
qed

lemma anonymous_subset: "set (anonymous st) \<subseteq> set (idents st)"
  by (auto simp: anonymous_def idents_def)

lemma toast_inv_write_text:
  "toast_inv n due st \<Longrightarrow> toast_inv n due (write_text i t st)"
  unfolding toast_inv_def by (simp add: wf_page_write_text)

lemma toast_inv_showToast:
  "toast_inv n due st \<Longrightarrow> toast_inv n due (showToast m l st)"
  unfolding toast_inv_def
  by (auto simp: showToast_fields showToast_ids wf_page_showToast split: if_splits)

lemma banner_ref_not_toast:
  assumes "toast_inv n due st"
  shows "banner_ref st \<noteq> n"
proof (cases "getElementById st ''ws-status''")
  case None
  with assms show ?thesis by (simp add: banner_ref_def toast_inv_def)
next
  case (Some b)
  from assms have wf: "wf_page st" by (simp add: toast_inv_def)
  have b: "b \<in> set (body st)" "elem_id b = ''ws-status''"
    using getElementById_Some[OF Some] by simp_all
  show ?thesis
  proof
    assume "banner_ref st = n"
    then have ib: "ident b = n" using Some by (simp add: banner_ref_def)
    then have "n \<in> set (idents st)" using b(1) by (auto simp: idents_def)
    with assms have "n \<in> set (anonymous st)"
      unfolding toast_inv_def by (auto split: if_splits)
    then obtain e where "e \<in> set (body st)" "elem_id e = []" "ident e = n"
      by (auto simp: anonymous_def)
    with wf_ident_inj[OF wf this(1) b(1)] ib b(2) show False by auto
  qed
qed

lemma toast_inv_setStatus:
  assumes "toast_inv n due st"
  shows "toast_inv n due (setStatus msg err st)"
  using assms banner_ref_not_toast[OF assms] unfolding toast_inv_def
  by (auto simp: wf_page_setStatus setStatus_fields setStatus_ids split: if_splits)

lemma advance_ids:
  "idents (advance d st)
     = filter (\<lambda>k. k \<notin> snd ` set (filter (\<lambda>(w, n). w \<le> clock st + d) (timers st))) (idents st)"
  "anonymous (advance d st)
     = filter (\<lambda>k. k \<notin> snd ` set (filter (\<lambda>(w, n). w \<le> clock st + d) (timers st)))
         (anonymous st)"
  by (simp_all add: idents_def anonymous_def advance_fields filter_map comp_def)
    (metis (mono_tags, lifting) filter_cong)

lemma wf_page_advance: "wf_page st \<Longrightarrow> wf_page (advance d st)"
  unfolding wf_page_def advance_fields
  by (auto simp: list_all_iff distinct_map_filter)

lemma toast_inv_advance:
  assumes "toast_inv n due st"
  shows "toast_inv n due (advance d st)"
proof -
  let ?due = "filter (\<lambda>(w, n). w \<le> clock st + d) (timers st)"
  from assms have wf: "wf_page st" and n: "n < fresh st"
    and only: "\<And>w. (w, n) \<in> set (timers st) \<Longrightarrow> w = due"
    by (auto simp: toast_inv_def list_all_iff)
  have t1: "list_all (\<lambda>(w, m). m = n \<longrightarrow> w = due) (timers (advance d st))"
    using only by (auto simp: advance_fields list_all_iff)
  show ?thesis
  proof (cases "clock st + d < due")
    case True
    then have c: "clock st < due" by simp
    with assms have a: "n \<in> set (anonymous st)" and t: "(due, n) \<in> set (timers st)"
      by (simp_all add: toast_inv_def)
    have "n \<notin> snd ` set ?due" using only True by force
    with a have "n \<in> set (anonymous (advance d st))" by (simp add: advance_ids)
    moreover have "(due, n) \<in> set (timers (advance d st))"
      using t True by (simp add: advance_fields)
    ultimately show ?thesis
      using True wf_page_advance[OF wf] n t1
      by (simp add: toast_inv_def advance_fields)
  next
    case False
    have gone: "n \<notin> set (idents (advance d st))"
    proof (cases "clock st < due")
      case True
      with assms have "(due, n) \<in> set (timers st)" by (simp add: toast_inv_def)
      with False have "n \<in> snd ` set ?due" by force
      then show ?thesis by (simp add: advance_ids)
    next
      case False
      with assms have "n \<notin> set (idents st)" by (simp add: toast_inv_def)
      then show ?thesis by (simp add: advance_ids)
    qed
    have "list_all (\<lambda>(w, m). m \<noteq> n) (timers (advance d st))"
      using only False by (fastforce simp: advance_fields list_all_iff)
    with gone show ?thesis
      using False wf_page_advance[OF wf] n t1
      by (simp add: toast_inv_def advance_fields)
  qed
qed

lemma toast_inv_onmessage:
  assumes "toast_inv n due st"
  shows "toast_inv n due (snd (onmessage sc parse payload st))"
proof (cases "parse payload")
  case None
  with assms show ?thesis
    by (cases sc) (simp_all add: onmessage_def dashboard_onmessage_def live_onmessage_def)
next
  case (Some M)
  from onmessage_shape[of parse payload M sc st, OF Some] obtain st2 where
    w: "surf_written sc M st st2" and
    r: "snd (onmessage sc parse payload st) = st2
      \<or> (\<exists>m l. snd (onmessage sc parse payload st) = showToast m l st2)"
    by blast
  have "toast_inv n due st2"
    using w assms unfolding surf_written_def
    by (cases sc) (auto simp: toast_inv_write_text)
  with r show ?thesis by (auto simp: toast_inv_showToast)
qed

lemma toast_inv_step:
  assumes "toast_inv n due st"
  shows "toast_inv n due (step sc parse ev st)"
  using assms
  by (cases sc; cases ev)
    (simp_all add: dashboard_onopen_def live_onopen_def dashboard_onerror_def live_onerror_def
      onclose_write_text toast_inv_setStatus toast_inv_write_text toast_inv_advance
      toast_inv_onmessage)

lemma toast_inv_run:
  "toast_inv n due st \<Longrightarrow> toast_inv n due (run sc parse evs st)"
  unfolding run_def
  by (induction evs arbitrary: st) (simp_all add: toast_inv_step)

lemma onmessage_clock: "clock (snd (onmessage sc parse payload st)) = clock st"
proof (cases "parse payload")
  case None
  then show ?thesis
    by (cases sc) (simp_all add: onmessage_def dashboard_onmessage_def live_onmessage_def)
next
  case (Some M)
  from onmessage_shape[of parse payload M sc st, OF Some] obtain st2 where
    "surf_written sc M st st2"
    "snd (onmessage sc parse payload st) = st2
      \<or> (\<exists>m l. snd (onmessage sc parse payload st) = showToast m l st2)"
    by blast
  then show ?thesis
    using surf_written_fields(3)[of sc M st st2] by (auto simp: showToast_fields)
qed

lemma run_clock: "clock (run sc parse evs st) = clock st + elapsed evs"
  unfolding run_def
proof (induction evs arbitrary: st)
  case Nil
  then show ?case by simp
next
  case (Cons ev evs)
  have "clock (step sc parse ev st) + elapsed evs = clock st + elapsed (ev # evs)"
    by (cases sc; cases ev)
      (simp_all add: dashboard_onopen_def live_onopen_def dashboard_onerror_def
        live_onerror_def onclose_write_text setStatus_fields advance_fields onmessage_clock)
  with Cons.IH[of "step sc parse ev st"] show ?case by simp
qed

lemma toast_lifetime:
  assumes "toast_inv n (clock st + 5500) st"
  shows "n \<in> set (idents (run sc parse evs st)) \<longleftrightarrow> elapsed evs < 5500"
proof -
  from toast_inv_run[OF assms, of sc parse evs]
  have "toast_inv n (clock st + 5500) (run sc parse evs st)" .
  then show ?thesis
    unfolding toast_inv_def[of n _ "run sc parse evs st"] run_clock
    using anonymous_subset[of "run sc parse evs st"] by (auto split: if_splits)
qed

lemma wf_page_onmessage: "wf_page st \<Longrightarrow> wf_page (snd (onmessage sc parse payload st))"
proof (cases "parse payload")
  case None
  assume "wf_page st"
  with None show ?thesis
    by (cases sc) (simp_all add: onmessage_def dashboard_onmessage_def live_onmessage_def)
next
  case (Some M)
  assume wf: "wf_page st"
  from onmessage_shape[of parse payload M sc st, OF Some] obtain st2 where
    w: "surf_written sc M st st2" and
    r: "snd (onmessage sc parse payload st) = st2
      \<or> (\<exists>m l. snd (onmessage sc parse payload st) = showToast m l st2)"
    by blast
  from r surf_written_wf[OF wf w] show ?thesis by (auto simp: wf_page_showToast)
qed

lemma wf_page_run_messages:
  "wf_page st \<Longrightarrow> wf_page (run sc parse (map Message ps) st)"
  unfolding run_def
  by (induction ps arbitrary: st) (simp_all add: wf_page_onmessage)

lemma batch_toast_inv:
  assumes wf: "wf_page st" and esc: "map (escalation parse) ps = map Some ts"
    and pres: "sc = Dashboard \<longrightarrow> getElementById st ''alerts-area'' \<noteq> None"
    and n: "n \<in> set [fresh st ..< fresh st + length ps]"
  shows "toast_inv n (clock (run sc parse (map Message ps) st) + 5500)
           (run sc parse (map Message ps) st)"
proof -
  let ?st' = "run sc parse (map Message ps) st"
  let ?T = "map2 threat_element [fresh st ..< fresh st + length ps] ts"
  from threats_run[OF wf esc pres] obtain B where
    body: "body ?st' = B @ ?T"
    and tim: "timers ?st' = timers st
                @ map (\<lambda>n. (clock st + 5500, n)) [fresh st ..< fresh st + length ps]"
    and fre: "fresh ?st' = fresh st + length ps"
    and clo: "clock ?st' = clock st"
    by blast
  have len: "length ts = length ps"
    using arg_cong[OF esc, of length] by simp
  have old: "m < fresh st" if "(w, m) \<in> set (timers st)" for w m
    using wf that by (auto simp: wf_page_def list_all_iff)
  have idT: "map ident (filter (\<lambda>e. elem_id e = []) ?T) = [fresh st ..< fresh st + length ps]"
  proof -
    have "filter (\<lambda>e. elem_id e = []) ?T = ?T"
      by (rule filter_True) (auto simp: threat_element_def toast_element_def)
    moreover have "map ident ?T = [fresh st ..< fresh st + length ps]"
      using len by (simp add: map_fst_zip[symmetric] zip_map_fst_snd comp_def case_prod_beta
          del: map_fst_zip)
        (metis (no_types, lifting) length_upt add_diff_cancel_left' map_fst_zip)
    ultimately show ?thesis by simp
  qed
  have 1: "n \<in> set (anonymous ?st')"
    using n unfolding anonymous_def body filter_append map_append idT by simp
  have 2: "(clock st + 5500, n) \<in> set (timers ?st')"
    using n unfolding tim by simp
  have 3: "list_all (\<lambda>(w, m). m = n \<longrightarrow> w = clock st + 5500) (timers ?st')"
    using n old unfolding tim by (fastforce simp: list_all_iff)
  show ?thesis
    unfolding toast_inv_def clo
    using wf_page_run_messages[OF wf, of sc parse ps] n 1 2 3 by (simp add: fre clo)
qed

text \<open>
  \<^bold>\<open>C8\<close>, as amended. On a well-formed page, which on the dashboard has an \<^verbatim>\<open>alerts-area\<close>
  element, a sequence of \<open>N\<close> frames that each decode to a threat of level \<^verbatim>\<open>CRITICAL\<close> or
  \<^verbatim>\<open>HIGH\<close> with a location that converts to a string attaches exactly \<open>N\<close> toasts, one per
  frame in the order of the frames, equal frames included, each a new element with the text
  and severity of its frame. Each toast has a removal timer of its own, 5500 ms from now:
  all \<open>N\<close> toasts are attached at any time before that, and none from then on, whatever
  other timers are pending and whatever events (further messages and toasts, status
  updates, a close) arrive in the meantime.
\<close>

theorem each_threat_gets_its_toast:
  assumes "wf_page st" and "map (escalation parse) ps = map Some ts"
    and "sc = Dashboard \<longrightarrow> getElementById st ''alerts-area'' \<noteq> None"
  shows "new_elements st (run sc parse (map Message ps) st)
           = map2 threat_element [fresh st ..< fresh st + length ps] ts
         \<and> length (new_elements st (run sc parse (map Message ps) st)) = length ps
         \<and> timers (run sc parse (map Message ps) st)
           = timers st @ map (\<lambda>n. (clock st + 5500, n)) [fresh st ..< fresh st + length ps]
         \<and> filter (\<lambda>e. fresh st \<le> ident e)
               (body (advance d (run sc parse (map Message ps) st)))
           = (if d < 5500 then map2 threat_element [fresh st ..< fresh st + length ps] ts
              else [])
         \<and> (\<forall>n \<in> set [fresh st ..< fresh st + length ps].
              (n \<in> set (idents (run sc parse evs (run sc parse (map Message ps) st))))
              = (elapsed evs < 5500))"
proof -
  let ?st' = "run sc parse (map Message ps) st"
  let ?T = "map2 threat_element [fresh st ..< fresh st + length ps] ts"
  let ?P = "\<lambda>e e'. e' = e \<or> (elem_id e \<in> set (surfaces sc)
                                        \<and> e' = e\<lparr>textContent := textContent e'\<rparr>)"
  from threats_run[OF assms] obtain B where
    body: "body ?st' = B @ ?T" and rel: "list_all2 ?P (body st) B"
    and tim: "timers ?st' = timers st
                @ map (\<lambda>n. (clock st + 5500, n)) [fresh st ..< fresh st + length ps]"
    and clo: "clock ?st' = clock st"
    by blast
  have len: "length ts = length ps"
    using arg_cong[OF assms(2), of length] by simp
  have lB: "length B = length (body st)"
    using rel by (simp add: list_all2_lengthD)
  have 1: "new_elements st ?st' = ?T"
    by (simp add: new_elements_def body lB)
  have 2: "length (new_elements st ?st') = length ps"
    unfolding 1 by (simp add: len)
  have 3: "filter (\<lambda>e. fresh st \<le> ident e) (body (advance d ?st'))
             = (if d < 5500 then ?T else [])"
    by (rule toasts_dwell[OF assms(1) len body rel tim clo])
  have 4: "\<forall>n \<in> set [fresh st ..< fresh st + length ps].
             (n \<in> set (idents (run sc parse evs ?st'))) = (elapsed evs < 5500)"
  proof
    fix n assume "n \<in> set [fresh st ..< fresh st + length ps]"
    from toast_lifetime[OF batch_toast_inv[OF assms this], of sc parse evs] clo
    show "(n \<in> set (idents (run sc parse evs ?st'))) = (elapsed evs < 5500)"
      by simp
  qed
  from 1 2 tim 3 4 show ?thesis by blast
qed

text \<open>
  C8 as stated fails on the dashboard without an \<^verbatim>\<open>alerts-area\<close> element, where two
  Chennai alerts in a row give no toast, and in both scripts for a threat whose location
  does not convert to a string.
\<close>

theorem each_threat_gets_its_toast_counterexample:
  "threat_of chennai_alert = Some (''CRITICAL'', Some (JStr ''Chennai''))
   \<and> new_elements (page_of [(''live-data'', ''-'')])
        (run Dashboard [''m'' \<mapsto> chennai_alert] [Message ''m'', Message ''m'']
           (page_of [(''live-data'', ''-'')])) = []
   \<and> threat_of (JObj [(''type'', JStr ''instant_threat''),
                        (''data'', JObj [(''location'', JObj [(''toString'', JNull)]),
                                         (''threat_level'', JStr ''HIGH'')])])
        = Some (''HIGH'', Some (JObj [(''toString'', JNull)]))
   \<and> new_elements (page_of [(''alerts-area'', ''-'')])
        (run LiveMonitoring
           [''m'' \<mapsto> JObj [(''type'', JStr ''instant_threat''),
                             (''data'', JObj [(''location'', JObj [(''toString'', JNull)]),
                                              (''threat_level'', JStr ''HIGH'')])]]
           [Message ''m''] (page_of [(''alerts-area'', ''-'')])) = []"
  by (simp add: eval_defs run_def)

text \<open>The hypotheses of C8 hold for the Chennai and the Goa alert in a row on the live
  monitoring page.\<close>

theorem each_threat_gets_its_toast_witness:
  "wf_page (page_of [(''alerts-area'', ''-'')])
   \<and> map (escalation [''a'' \<mapsto> chennai_alert, ''b'' \<mapsto> goa_alert]) [''a'', ''b'']
        = map Some [(''CRITICAL'', ''Chennai''), (''HIGH'', ''Goa'')]
   \<and> new_elements (page_of [(''alerts-area'', ''-'')])
        (run LiveMonitoring [''a'' \<mapsto> chennai_alert, ''b'' \<mapsto> goa_alert]
           (map Message [''a'', ''b'']) (page_of [(''alerts-area'', ''-'')]))
       = [toast_element 1 ''CRITICAL THREAT: Chennai'' ''danger'',
          toast_element 2 ''HIGH THREAT: Goa'' ''warning'']
   \<and> timers (run LiveMonitoring [''a'' \<mapsto> chennai_alert, ''b'' \<mapsto> goa_alert]
           (map Message [''a'', ''b'']) (page_of [(''alerts-area'', ''-'')]))
       = [(5500, 1), (5500, 2)]
   \<and> filter (\<lambda>e. 1 \<le> ident e)
        (body (advance 5500
           (run LiveMonitoring [''a'' \<mapsto> chennai_alert, ''b'' \<mapsto> goa_alert]
              (map Message [''a'', ''b'']) (page_of [(''alerts-area'', ''-'')])))) = []
   \<and> 2 \<in> set (idents
        (run LiveMonitoring [''a'' \<mapsto> chennai_alert, ''b'' \<mapsto> goa_alert]
           [Elapse 3000, Failure, Message ''a'', Elapse 2499]
           (run LiveMonitoring [''a'' \<mapsto> chennai_alert, ''b'' \<mapsto> goa_alert]
              (map Message [''a'', ''b'']) (page_of [(''alerts-area'', ''-'')]))))
   \<and> 2 \<notin> set (idents
        (run LiveMonitoring [''a'' \<mapsto> chennai_alert, ''b'' \<mapsto> goa_alert]
           [Elapse 3000, Failure, Message ''a'', Elapse 2500]
           (run LiveMonitoring [''a'' \<mapsto> chennai_alert, ''b'' \<mapsto> goa_alert]
              (map Message [''a'', ''b'']) (page_of [(''alerts-area'', ''-'')]))))"
proof -
  let ?pg = "page_of [(''alerts-area'', ''-'')]"
  let ?parse = "[''a'' \<mapsto> chennai_alert, ''b'' \<mapsto> goa_alert]"
  have h1: "wf_page ?pg" by (simp add: wf_page_def page_of_def enumerate_eq_zip)
  have h2: "map (escalation ?parse) [''a'', ''b'']
              = map Some [(''CRITICAL'', ''Chennai''), (''HIGH'', ''Goa'')]"
    by (simp add: escalation_def threat_of_def chennai_alert_def goa_alert_def)
  have h3: "LiveMonitoring = Dashboard \<longrightarrow> getElementById ?pg ''alerts-area'' \<noteq> None"
    by simp
  have f: "fresh ?pg = 1" "timers ?pg = []" "clock ?pg = 0" by (simp_all add: page_of_def)
  have u: "[1 ..< 3] = [1, 2::nat]" by (simp add: upt_conv_Cons)
  have a: "new_elements ?pg (run LiveMonitoring ?parse (map Message [''a'', ''b'']) ?pg)
       = [toast_element 1 ''CRITICAL THREAT: Chennai'' ''danger'',
          toast_element 2 ''HIGH THREAT: Goa'' ''warning'']
    \<and> timers (run LiveMonitoring ?parse (map Message [''a'', ''b'']) ?pg)
       = [(5500, 1), (5500, 2)]
    \<and> filter (\<lambda>e. 1 \<le> ident e)
        (body (advance 5500 (run LiveMonitoring ?parse (map Message [''a'', ''b'']) ?pg))) = []"
    using each_threat_gets_its_toast[OF h1 h2 h3, of 5500 "[]"]
    by (simp add: f u threat_element_def severity_def numeral_2_eq_2)
  have b: "2 \<in> set (idents (run LiveMonitoring ?parse
              [Elapse 3000, Failure, Message ''a'', Elapse 2499]
              (run LiveMonitoring ?parse (map Message [''a'', ''b'']) ?pg)))"
    using each_threat_gets_its_toast[OF h1 h2 h3, of 0
        "[Elapse 3000, Failure, Message ''a'', Elapse 2499]"]
    by (simp add: f u numeral_2_eq_2)
  have c: "2 \<notin> set (idents (run LiveMonitoring ?parse
              [Elapse 3000, Failure, Message ''a'', Elapse 2500]
              (run LiveMonitoring ?parse (map Message [''a'', ''b'']) ?pg)))"
    using each_threat_gets_its_toast[OF h1 h2 h3, of 0
        "[Elapse 3000, Failure, Message ''a'', Elapse 2500]"]
    by (simp add: f u numeral_2_eq_2)
  from h1 h2 a b c show ?thesis by blast
qed

end
